theory Spec2Isabelle
  imports Main
begin

section \<open>Python 2 byte strings\<close>

text \<open>
  The module \<^verbatim>\<open>googlecloudsdk/core/resource/resource_property.py\<close> is Python 2 code.
  Strings are modelled as byte strings (\<^verbatim>\<open>str\<close>) in the C locale: only the ASCII
  letters have a case.
\<close>

definition ascii_lowercase :: string where
  "ascii_lowercase = ''abcdefghijklmnopqrstuvwxyz''"

definition ascii_uppercase :: string where
  "ascii_uppercase = ''ABCDEFGHIJKLMNOPQRSTUVWXYZ''"

definition digits :: string where
  "digits = ''0123456789''"

definition is_upper :: "char \<Rightarrow> bool" where
  "is_upper c = (c \<in> set ascii_uppercase)"

definition is_lower :: "char \<Rightarrow> bool" where
  "is_lower c = (c \<in> set ascii_lowercase)"

definition is_digit :: "char \<Rightarrow> bool" where
  "is_digit c = (c \<in> set digits)"

definition to_upper :: "char \<Rightarrow> char" where
  "to_upper c =
     (case map_of (zip ascii_lowercase ascii_uppercase) c of Some u \<Rightarrow> u | None \<Rightarrow> c)"

definition to_lower :: "char \<Rightarrow> char" where
  "to_lower c =
     (case map_of (zip ascii_uppercase ascii_lowercase) c of Some l \<Rightarrow> l | None \<Rightarrow> c)"

text \<open>\<^verbatim>\<open>s.lower()\<close> and \<^verbatim>\<open>s.upper()\<close>.\<close>

definition lower :: "string \<Rightarrow> string" where
  "lower s = map to_lower s"

definition upper :: "string \<Rightarrow> string" where
  "upper s = map to_upper s"

text \<open>
  \<^verbatim>\<open>s.title()\<close>: a letter that follows a letter is lowercased, a letter that does not is
  uppercased, and any other byte is kept and ends the word. The flag is CPython's
  \<^verbatim>\<open>previous_is_cased\<close>.
\<close>

fun title_from :: "bool \<Rightarrow> string \<Rightarrow> string" where
  "title_from previous_is_cased [] = []"
| "title_from previous_is_cased (c # cs) =
     (if is_lower c then
        (if previous_is_cased then c else to_upper c) # title_from True cs
      else if is_upper c then
        (if previous_is_cased then to_lower c else c) # title_from True cs
      else c # title_from False cs)"

definition title :: "string \<Rightarrow> string" where
  "title s = title_from False s"

text \<open>\<^verbatim>\<open>name.split('_')\<close>: the result is never empty.\<close>

fun split_underscore :: "string \<Rightarrow> string list" where
  "split_underscore [] = [[]]"
| "split_underscore (c # cs) =
     (if c = CHR ''_'' then [] # split_underscore cs
      else (case split_underscore cs of
              [] \<Rightarrow> [[c]]
            | part # parts \<Rightarrow> (c # part) # parts))"

section \<open>Identifier case conversion\<close>

text \<open>
  \<^verbatim>\<open>def ConvertToCamelCase(name):
    part = name.split('_')
    return part[0] + ''.join(x.title() for x in part[1:])\<close>
\<close>

definition ConvertToCamelCase :: "string \<Rightarrow> string" where
  "ConvertToCamelCase name =
     (case split_underscore name of
        [] \<Rightarrow> []
      | part0 # parts \<Rightarrow> part0 @ concat (map title parts))"

text \<open>
  \<^verbatim>\<open>_SNAKE_RE = re.compile(
    '((?<=[a-z0-9])[A-Z]+(?=[A-Z][a-z]|$)|(?!^)[A-Z](?=[a-z]))')\<close>

  \<open>snake_match prev rest\<close> is the length of the match of \<^verbatim>\<open>_SNAKE_RE\<close> that starts
  where \<open>rest\<close> starts, \<open>prev\<close> being the character before it (\<open>None\<close> at the start of
  the string), and 0 when there is none. The first alternative takes the whole run of
  capitals when the string ends after it (\<^verbatim>\<open>$\<close> also matches before a final newline), or
  the run without its last capital when a lowercase letter follows the run; a shorter
  prefix of the run is followed by two capitals and cannot match. The second alternative
  is tried only when the first fails.
\<close>

definition at_end :: "string \<Rightarrow> bool" where
  "at_end s = (s = [] \<or> s = [CHR 0x0A])"

definition lookbehind_alnum :: "char option \<Rightarrow> bool" where
  "lookbehind_alnum prev =
     (case prev of None \<Rightarrow> False | Some p \<Rightarrow> is_lower p \<or> is_digit p)"

definition followed_by_lower :: "string \<Rightarrow> bool" where
  "followed_by_lower s = (case s of [] \<Rightarrow> False | c # _ \<Rightarrow> is_lower c)"

definition snake_match :: "char option \<Rightarrow> string \<Rightarrow> nat" where
  "snake_match prev rest =
     (let run = length (takeWhile is_upper rest); after = drop run rest in
      if lookbehind_alnum prev \<and> 1 \<le> run \<and> at_end after then run
      else if lookbehind_alnum prev \<and> 2 \<le> run \<and> followed_by_lower after then run - 1
      else if prev \<noteq> None \<and> 1 \<le> run \<and> followed_by_lower (drop 1 rest) then 1
      else 0)"

text \<open>
  \<^verbatim>\<open>_SNAKE_RE.sub(r'_\1', name)\<close>: scanning from the left, every match is replaced by an
  underscore and itself, and the scan goes on after the match.
\<close>

function snake_sub :: "char option \<Rightarrow> string \<Rightarrow> string" where
  "snake_sub prev [] = []"
| "snake_sub prev (c # cs) =
     (case snake_match prev (c # cs) of
        0 \<Rightarrow> c # snake_sub (Some c) cs
      | Suc k \<Rightarrow>
          CHR ''_'' # take (Suc k) (c # cs) @ snake_sub (Some ((c # cs) ! k)) (drop k cs))"
  by pat_completeness auto
termination
  by (relation "measure (\<lambda>(prev, s). length s)") auto

text \<open>
  \<^verbatim>\<open>def ConvertToSnakeCase(name):
    return _SNAKE_RE.sub(r'_\1', name).lower()

def ConvertToAngrySnakeCase(name):
    return _SNAKE_RE.sub(r'_\1', name).upper()\<close>
\<close>

definition ConvertToSnakeCase :: "string \<Rightarrow> string" where
  "ConvertToSnakeCase name = lower (snake_sub None name)"

definition ConvertToAngrySnakeCase :: "string \<Rightarrow> string" where
  "ConvertToAngrySnakeCase name = upper (snake_sub None name)"

section \<open>Resources, keys and outcomes\<close>

text \<open>
  A resource is a Python value built from \<^verbatim>\<open>None\<close>, booleans, integers (\<^verbatim>\<open>int\<close> and
  \<^verbatim>\<open>long\<close>), byte strings, lists, tuples, sets, dictionaries and plain objects that hold
  named fields. A dictionary is an association list in its iteration order, read by
  its first entry for a key; its keys are strings or integers. Floating-point numbers,
  \<^verbatim>\<open>unicode\<close> strings and objects whose class defines methods are not part of the model.
\<close>

datatype dkey = DStr string | DInt int

datatype pyval =
    PNone
  | PBool bool
  | PInt int
  | PLong int
  | PStr string
  | PList "pyval list"
  | PTuple "pyval list"
  | PSet "pyval list"
  | PDict "(dkey \<times> pyval) list"
  | PObj "(string \<times> pyval) list"

text \<open>
  An element of the \<^verbatim>\<open>key\<close> list of \<^verbatim>\<open>Get\<close>: a string (a property name), an integer
  (a list index) or \<^verbatim>\<open>None\<close> (a slice).
\<close>

datatype key = Name string | Index int | Slice

fun key_of_dkey :: "dkey \<Rightarrow> key" where
  "key_of_dkey (DStr s) = Name s"
| "key_of_dkey (DInt i) = Index i"

fun pyval_of_dkey :: "dkey \<Rightarrow> pyval" where
  "pyval_of_dkey (DStr s) = PStr s"
| "pyval_of_dkey (DInt i) = PInt i"

text \<open>
  The exceptions the module can meet; \<^verbatim>\<open>RuntimeError\<close> is the interpreter's
  \<^verbatim>\<open>maximum recursion depth exceeded\<close>. The outcome of a call of \<^verbatim>\<open>Get\<close>: it returns a
  value of the model, it returns a built-in attribute of a value (a bound method such as
  \<^verbatim>\<open>[].count\<close>, a type object, a doc string), it raises, or it goes on to traverse such a
  built-in attribute, which this model does not follow.
\<close>

datatype pyerr = AttributeError | TypeError | RuntimeError

datatype outcome =
    Returns pyval
  | ReturnsBuiltin pyval string
  | Raises pyerr
  | Unmodelled

text \<open>
  What the module uses of the interpreter and of \<^verbatim>\<open>json\<close> without defining it:
  \<^verbatim>\<open>sorted\<close> on the elements of a set, and \<^verbatim>\<open>json.loads\<close> on a string, \<open>None\<close> standing for
  its \<^verbatim>\<open>ValueError\<close>.
\<close>

record pyenv =
  py_sorted :: "pyval list \<Rightarrow> pyval list"
  json_loads :: "string \<Rightarrow> pyval option"

subsection \<open>Truth values, equality with a key, iteration, length, indexing\<close>

fun py_truthy :: "pyval \<Rightarrow> bool" where
  "py_truthy PNone = False"
| "py_truthy (PBool b) = b"
| "py_truthy (PInt i) = (i \<noteq> 0)"
| "py_truthy (PLong i) = (i \<noteq> 0)"
| "py_truthy (PStr s) = (s \<noteq> [])"
| "py_truthy (PList xs) = (xs \<noteq> [])"
| "py_truthy (PTuple xs) = (xs \<noteq> [])"
| "py_truthy (PSet xs) = (xs \<noteq> [])"
| "py_truthy (PDict kvs) = (kvs \<noteq> [])"
| "py_truthy (PObj flds) = True"

fun key_truthy :: "key \<Rightarrow> bool" where
  "key_truthy (Name s) = (s \<noteq> [])"
| "key_truthy (Index i) = (i \<noteq> 0)"
| "key_truthy Slice = False"

text \<open>\<^verbatim>\<open>v == k\<close> for a value and a key; \<^verbatim>\<open>True == 1\<close> and \<^verbatim>\<open>False == 0\<close> hold in Python.\<close>

definition py_eq_key :: "pyval \<Rightarrow> key \<Rightarrow> bool" where
  "py_eq_key v k =
     (case k of
        Name t \<Rightarrow> v = PStr t
      | Index j \<Rightarrow> v = PInt j \<or> v = PLong j \<or> v = PBool (j = 1) \<and> (j = 0 \<or> j = 1)
      | Slice \<Rightarrow> v = PNone)"

text \<open>\<^verbatim>\<open>for item in items\<close>: the items, or \<open>None\<close> for the \<^verbatim>\<open>TypeError\<close> of a value that is not iterable.\<close>

fun py_iter :: "pyval \<Rightarrow> pyval list option" where
  "py_iter (PList xs) = Some xs"
| "py_iter (PTuple xs) = Some xs"
| "py_iter (PSet xs) = Some xs"
| "py_iter (PDict kvs) = Some (map (\<lambda>(k, v). pyval_of_dkey k) kvs)"
| "py_iter (PStr s) = Some (map (\<lambda>c. PStr [c]) s)"
| "py_iter v = None"

text \<open>\<^verbatim>\<open>len(resource)\<close>, or \<open>None\<close> for its \<^verbatim>\<open>TypeError\<close>.\<close>

fun py_len :: "pyval \<Rightarrow> nat option" where
  "py_len (PList xs) = Some (length xs)"
| "py_len (PTuple xs) = Some (length xs)"
| "py_len (PSet xs) = Some (length xs)"
| "py_len (PDict kvs) = Some (length kvs)"
| "py_len (PStr s) = Some (length s)"
| "py_len v = None"

text \<open>
  \<^verbatim>\<open>resource[index]\<close> for an integer index that lies in
  \<^verbatim>\<open>xrange(-len(resource), len(resource))\<close>: a negative index counts from the end. A
  value that cannot be indexed by position gives \<open>None\<close>.
\<close>

definition nth_py :: "'a list \<Rightarrow> int \<Rightarrow> 'a option" where
  "nth_py xs i =
     (if 0 \<le> i \<and> i < int (length xs) then Some (xs ! nat i)
      else if - int (length xs) \<le> i \<and> i < 0 then Some (xs ! nat (int (length xs) + i))
      else None)"

fun py_getitem :: "pyval \<Rightarrow> int \<Rightarrow> pyval option" where
  "py_getitem (PList xs) i = nth_py xs i"
| "py_getitem (PTuple xs) i = nth_py xs i"
| "py_getitem (PStr s) i = map_option (\<lambda>c. PStr [c]) (nth_py s i)"
| "py_getitem v i = None"

text \<open>\<^verbatim>\<open>x in resource\<close>, \<^verbatim>\<open>resource[name]\<close> and \<^verbatim>\<open>d.get(name)\<close> for a dictionary.\<close>

fun dkey_of_key :: "key \<Rightarrow> dkey option" where
  "dkey_of_key (Name s) = Some (DStr s)"
| "dkey_of_key (Index i) = Some (DInt i)"
| "dkey_of_key Slice = None"

definition dict_lookup :: "(dkey \<times> pyval) list \<Rightarrow> key \<Rightarrow> pyval option" where
  "dict_lookup kvs x = (case dkey_of_key x of None \<Rightarrow> None | Some k \<Rightarrow> map_of kvs k)"

definition key_in_dict :: "key \<Rightarrow> (dkey \<times> pyval) list \<Rightarrow> bool" where
  "key_in_dict x kvs = (dict_lookup kvs x \<noteq> None)"

definition dict_get :: "(dkey \<times> pyval) list \<Rightarrow> key \<Rightarrow> pyval" where
  "dict_get kvs x = (case dict_lookup kvs x of None \<Rightarrow> PNone | Some v \<Rightarrow> v)"

subsection \<open>Attributes\<close>

text \<open>
  The attribute names of the built-in types of Python 2.7 (\<^verbatim>\<open>dir\<close> of a value of the
  type), which \<^verbatim>\<open>hasattr\<close> and \<^verbatim>\<open>getattr\<close> see. A plain object has the names of an
  instance of a class that defines nothing, besides its fields.
\<close>

definition common_attrs :: "string list" where
  "common_attrs =
     [''__class__'', ''__delattr__'', ''__doc__'', ''__format__'', ''__getattribute__'',
      ''__hash__'', ''__init__'', ''__new__'', ''__reduce__'', ''__reduce_ex__'',
      ''__repr__'', ''__setattr__'', ''__sizeof__'', ''__str__'', ''__subclasshook__'']"

definition object_attrs :: "string list" where
  "object_attrs = common_attrs @ [''__dict__'', ''__module__'', ''__weakref__'']"

definition int_attrs :: "string list" where
  "int_attrs = common_attrs @
     [''__abs__'', ''__add__'', ''__and__'', ''__cmp__'', ''__coerce__'', ''__div__'',
      ''__divmod__'', ''__float__'', ''__floordiv__'', ''__getnewargs__'', ''__hex__'',
      ''__index__'', ''__int__'', ''__invert__'', ''__long__'', ''__lshift__'', ''__mod__'',
      ''__mul__'', ''__neg__'', ''__nonzero__'', ''__oct__'', ''__or__'', ''__pos__'',
      ''__pow__'', ''__radd__'', ''__rand__'', ''__rdiv__'', ''__rdivmod__'',
      ''__rfloordiv__'', ''__rlshift__'', ''__rmod__'', ''__rmul__'', ''__ror__'',
      ''__rpow__'', ''__rrshift__'', ''__rshift__'', ''__rsub__'', ''__rtruediv__'',
      ''__rxor__'', ''__sub__'', ''__truediv__'', ''__trunc__'', ''__xor__'',
      ''bit_length'', ''conjugate'', ''denominator'', ''imag'', ''numerator'', ''real'']"

definition str_attrs :: "string list" where
  "str_attrs = common_attrs @
     [''__add__'', ''__contains__'', ''__eq__'', ''__ge__'', ''__getitem__'',
      ''__getnewargs__'', ''__getslice__'', ''__gt__'', ''__le__'', ''__len__'', ''__lt__'',
      ''__mod__'', ''__mul__'', ''__ne__'', ''__rmod__'', ''__rmul__'',
      ''_formatter_field_name_split'', ''_formatter_parser'', ''capitalize'', ''center'',
      ''count'', ''decode'', ''encode'', ''endswith'', ''expandtabs'', ''find'', ''format'',
      ''index'', ''isalnum'', ''isalpha'', ''isdigit'', ''islower'', ''isspace'',
      ''istitle'', ''isupper'', ''join'', ''ljust'', ''lower'', ''lstrip'', ''partition'',
      ''replace'', ''rfind'', ''rindex'', ''rjust'', ''rpartition'', ''rsplit'', ''rstrip'',
      ''split'', ''splitlines'', ''startswith'', ''strip'', ''swapcase'', ''title'',
      ''translate'', ''upper'', ''zfill'']"

definition list_attrs :: "string list" where
  "list_attrs = common_attrs @
     [''__add__'', ''__contains__'', ''__delitem__'', ''__delslice__'', ''__eq__'',
      ''__ge__'', ''__getitem__'', ''__getslice__'', ''__gt__'', ''__iadd__'', ''__imul__'',
      ''__iter__'', ''__le__'', ''__len__'', ''__lt__'', ''__mul__'', ''__ne__'',
      ''__reversed__'', ''__rmul__'', ''__setitem__'', ''__setslice__'', ''append'',
      ''count'', ''extend'', ''index'', ''insert'', ''pop'', ''remove'', ''reverse'',
      ''sort'']"

definition tuple_attrs :: "string list" where
  "tuple_attrs = common_attrs @
     [''__add__'', ''__contains__'', ''__eq__'', ''__ge__'', ''__getitem__'',
      ''__getnewargs__'', ''__getslice__'', ''__gt__'', ''__iter__'', ''__le__'',
      ''__len__'', ''__lt__'', ''__mul__'', ''__ne__'', ''__rmul__'', ''count'', ''index'']"

definition set_attrs :: "string list" where
  "set_attrs = common_attrs @
     [''__and__'', ''__cmp__'', ''__contains__'', ''__eq__'', ''__ge__'', ''__gt__'',
      ''__iand__'', ''__ior__'', ''__isub__'', ''__iter__'', ''__ixor__'', ''__le__'',
      ''__len__'', ''__lt__'', ''__ne__'', ''__or__'', ''__rand__'', ''__ror__'',
      ''__rsub__'', ''__rxor__'', ''__sub__'', ''__xor__'', ''add'', ''clear'', ''copy'',
      ''difference'', ''difference_update'', ''discard'', ''intersection'',
      ''intersection_update'', ''isdisjoint'', ''issubset'', ''issuperset'', ''pop'',
      ''remove'', ''symmetric_difference'', ''symmetric_difference_update'', ''union'',
      ''update'']"

definition dict_attrs :: "string list" where
  "dict_attrs = common_attrs @
     [''__cmp__'', ''__contains__'', ''__delitem__'', ''__eq__'', ''__ge__'',
      ''__getitem__'', ''__gt__'', ''__iter__'', ''__le__'', ''__len__'', ''__lt__'',
      ''__ne__'', ''__setitem__'', ''clear'', ''copy'', ''fromkeys'', ''get'', ''has_key'',
      ''items'', ''iteritems'', ''iterkeys'', ''itervalues'', ''keys'', ''pop'',
      ''popitem'', ''setdefault'', ''update'', ''values'', ''viewitems'', ''viewkeys'',
      ''viewvalues'']"

fun builtin_attrs :: "pyval \<Rightarrow> string list" where
  "builtin_attrs PNone = common_attrs"
| "builtin_attrs (PBool b) = int_attrs"
| "builtin_attrs (PInt i) = int_attrs"
| "builtin_attrs (PLong i) = int_attrs"
| "builtin_attrs (PStr s) = str_attrs"
| "builtin_attrs (PList xs) = list_attrs"
| "builtin_attrs (PTuple xs) = tuple_attrs"
| "builtin_attrs (PSet xs) = set_attrs"
| "builtin_attrs (PDict kvs) = dict_attrs"
| "builtin_attrs (PObj flds) = object_attrs"

text \<open>
  \<^verbatim>\<open>getattr(resource, x)\<close>: a field of a plain object, a built-in attribute, or none.
\<close>

datatype attr = NoAttr | Field pyval | Builtin

definition py_getattr :: "pyval \<Rightarrow> string \<Rightarrow> attr" where
  "py_getattr resource x =
     (case (case resource of PObj flds \<Rightarrow> map_of flds x | _ \<Rightarrow> None) of
        Some v \<Rightarrow> Field v
      | None \<Rightarrow> if x \<in> set (builtin_attrs resource) then Builtin else NoAttr)"

definition py_hasattr :: "pyval \<Rightarrow> string \<Rightarrow> bool" where
  "py_hasattr resource x = (py_getattr resource x \<noteq> NoAttr)"

section \<open>The metadata resolver\<close>

text \<open>
  \<^verbatim>\<open>def _GetMetaDict(items, key, value):
    try:
      for item in items:
        if item.get(key) == value:
          return item
    except (AttributeError, IndexError, TypeError, ValueError):
      pass
    return None\<close>

  Only a dictionary has a callable \<^verbatim>\<open>get\<close>: on any other item the call raises
  \<^verbatim>\<open>AttributeError\<close> (or \<^verbatim>\<open>TypeError\<close>, for an object with a field of that name), which
  ends the scan with \<^verbatim>\<open>None\<close>.
\<close>

fun GetMetaDict_scan :: "pyval list \<Rightarrow> string \<Rightarrow> key \<Rightarrow> pyval" where
  "GetMetaDict_scan [] key value = PNone"
| "GetMetaDict_scan (item # items) key value =
     (case item of
        PDict kvs \<Rightarrow>
          if py_eq_key (dict_get kvs (Name key)) value then item
          else GetMetaDict_scan items key value
      | _ \<Rightarrow> PNone)"

definition GetMetaDict :: "pyval \<Rightarrow> string \<Rightarrow> key \<Rightarrow> pyval" where
  "GetMetaDict items key value =
     (case py_iter items of
        None \<Rightarrow> PNone
      | Some xs \<Rightarrow> GetMetaDict_scan xs key value)"

text \<open>
  \<^verbatim>\<open>def _GetMetaDataValue(items, name, deserialize=False):
    item = _GetMetaDict(items, 'key', name)
    if item is None:
      return None
    value = item.get('value', None)
    if deserialize:
      try:
        return json.loads(value)
      except (TypeError, ValueError):
        pass
    return value\<close>

  \<^verbatim>\<open>json.loads\<close> raises \<^verbatim>\<open>TypeError\<close> on a value that is not a string.
\<close>

definition GetMetaDataValue :: "pyenv \<Rightarrow> pyval \<Rightarrow> key \<Rightarrow> bool \<Rightarrow> pyval" where
  "GetMetaDataValue env items name deserialize =
     (case GetMetaDict items ''key'' name of
        PDict kvs \<Rightarrow>
          (let value = dict_get kvs (Name ''value'') in
           if deserialize then
             (case value of
                PStr s \<Rightarrow> (case json_loads env s of Some v \<Rightarrow> v | None \<Rightarrow> value)
              | _ \<Rightarrow> value)
           else value)
      | _ \<Rightarrow> PNone)"

section \<open>The matching engine\<close>

text \<open>
  \<^verbatim>\<open>def GetMatchingIndex(index, func):
    if func(index):
      return index
    if not isinstance(index, basestring):
      return None
    for convert in [ConvertToCamelCase, ConvertToSnakeCase]:
      name = convert(index)
      if func(name):
        return name
    return None\<close>
\<close>

definition GetMatchingIndex :: "key \<Rightarrow> (key \<Rightarrow> bool) \<Rightarrow> key option" where
  "GetMatchingIndex index func =
     (if func index then Some index
      else (case index of
              Name s \<Rightarrow>
                if func (Name (ConvertToCamelCase s)) then Some (Name (ConvertToCamelCase s))
                else if func (Name (ConvertToSnakeCase s)) then Some (Name (ConvertToSnakeCase s))
                else None
            | _ \<Rightarrow> None))"

text \<open>
  \<^verbatim>\<open>def GetMatchingIndexValue(index, func):
    value = func(index)
    if value:
      return value
    if not isinstance(index, basestring):
      return None
    for convert in [ConvertToCamelCase, ConvertToSnakeCase]:
      value = func(convert(index))
      if value:
        return value
    return None\<close>
\<close>

definition GetMatchingIndexValue :: "key \<Rightarrow> (key \<Rightarrow> pyval) \<Rightarrow> pyval" where
  "GetMatchingIndexValue index func =
     (if py_truthy (func index) then func index
      else (case index of
              Name s \<Rightarrow>
                if py_truthy (func (Name (ConvertToCamelCase s)))
                then func (Name (ConvertToCamelCase s))
                else if py_truthy (func (Name (ConvertToSnakeCase s)))
                then func (Name (ConvertToSnakeCase s))
                else PNone
            | _ \<Rightarrow> PNone))"

text \<open>\<^verbatim>\<open>if name:\<close> after a match: an empty string and the integer 0 count as no match.\<close>

definition truthy_name :: "key option \<Rightarrow> key option" where
  "truthy_name name =
     (case name of None \<Rightarrow> None | Some k \<Rightarrow> if key_truthy k then Some k else None)"

section \<open>The path resolver\<close>

text \<open>\<^verbatim>\<open>if isinstance(resource, set): resource = sorted(resource)\<close>\<close>

definition sort_if_set :: "pyenv \<Rightarrow> pyval \<Rightarrow> pyval" where
  "sort_if_set env resource =
     (case resource of PSet xs \<Rightarrow> PList (py_sorted env xs) | _ \<Rightarrow> resource)"

text \<open>\<^verbatim>\<open>if meta:\<close> holds for a pending name that is not the empty string.\<close>

definition meta_truthy :: "string option \<Rightarrow> bool" where
  "meta_truthy meta = (case meta of None \<Rightarrow> False | Some m \<Rightarrow> m \<noteq> [])"

text \<open>
  The list of the results of a slice: the calls are made in order, and the first that
  raises ends the comprehension.
\<close>

fun gather :: "outcome list \<Rightarrow> outcome" where
  "gather [] = Returns (PList [])"
| "gather (Returns v # os) =
     (case gather os of
        Returns (PList vs) \<Rightarrow> Returns (PList (v # vs))
      | other \<Rightarrow> other)"
| "gather (Raises e # os) = Raises e"
| "gather (ReturnsBuiltin r x # os) =
     (case gather os of Raises e \<Rightarrow> Raises e | _ \<Rightarrow> Unmodelled)"
| "gather (Unmodelled # os) = Unmodelled"

text \<open>
  \<^verbatim>\<open>[d.get(index) for d in resource]\<close>: only the first element is known to be a
  dictionary; \<^verbatim>\<open>d.get\<close> on any other value raises.
\<close>

fun field_values :: "pyval list \<Rightarrow> string \<Rightarrow> pyerr + pyval list" where
  "field_values [] index = Inr []"
| "field_values (d # ds) index =
     (case d of
        PDict kvs \<Rightarrow>
          (case field_values ds index of
             Inl e \<Rightarrow> Inl e
           | Inr vs \<Rightarrow> Inr (dict_get kvs (Name index) # vs))
      | PObj flds \<Rightarrow>
          if map_of flds ''get'' \<noteq> None then Inl TypeError else Inl AttributeError
      | _ \<Rightarrow> Inl AttributeError)"

text \<open>\<^verbatim>\<open>return filter(None, [d.get(index) for d in resource]) or default\<close>\<close>

definition last_dict_slice :: "pyval list \<Rightarrow> string \<Rightarrow> pyval \<Rightarrow> outcome" where
  "last_dict_slice resource index dflt =
     (case field_values resource index of
        Inl e \<Rightarrow> Raises e
      | Inr vs \<Rightarrow>
          if filter py_truthy vs = [] then Returns dflt
          else Returns (PList (filter py_truthy vs)))"

text \<open>
  \<^verbatim>\<open>isinstance(index, basestring)\<close> and
  \<^verbatim>\<open>name = GetMatchingIndex(index, lambda x: hasattr(resource, x))\<close> and \<^verbatim>\<open>if name:\<close>
\<close>

definition class_like :: "pyval \<Rightarrow> key \<Rightarrow> string option" where
  "class_like resource index =
     (case index of
        Name s \<Rightarrow>
          (case truthy_name
                  (GetMatchingIndex index
                     (\<lambda>x. case x of Name t \<Rightarrow> py_hasattr resource t | _ \<Rightarrow> False)) of
             Some (Name n) \<Rightarrow> Some n
           | _ \<Rightarrow> None)
      | _ \<Rightarrow> None)"

text \<open>\<^verbatim>\<open>hasattr(resource, '__iter__') or isinstance(resource, basestring)\<close>\<close>

definition list_like :: "pyval \<Rightarrow> bool" where
  "list_like resource =
     (py_hasattr resource ''__iter__'' \<or> (case resource of PStr s \<Rightarrow> True | _ \<Rightarrow> False))"

text \<open>
  \<^verbatim>\<open>isinstance(index, basestring) and isinstance(resource, list) and len(resource) and
  isinstance(resource[0], dict)\<close>
\<close>

fun list_of_dicts :: "pyval \<Rightarrow> bool" where
  "list_of_dicts (PList (PDict kvs # ds)) = True"
| "list_of_dicts v = False"

fun list_items :: "pyval \<Rightarrow> pyval list" where
  "list_items (PList xs) = xs"
| "list_items v = []"

text \<open>
  The loop of \<^verbatim>\<open>Get\<close> over \<^verbatim>\<open>key\<close>, with the loop's state: the resource reached and the
  pending name \<^verbatim>\<open>meta\<close>. \<open>rest \<noteq> []\<close> is \<^verbatim>\<open>i + 1 < len(key)\<close>. The branches are those of
  the source, in its order.
\<close>

function Get_loop :: "pyenv \<Rightarrow> pyval \<Rightarrow> string option \<Rightarrow> key list \<Rightarrow> pyval \<Rightarrow> outcome" where
  "Get_loop env resource0 meta [] dflt = Returns (sort_if_set env resource0)"
| "Get_loop env resource0 meta (index # rest) dflt =
     (let resource = sort_if_set env resource0 in
      if resource = PNone then Returns dflt
      else if meta_truthy meta then
        Get_loop env (GetMetaDict resource (the meta) index) None rest dflt
      else if py_hasattr resource ''iteritems'' then
        (case resource of
           PDict kvs \<Rightarrow>
             (if index = Slice then
                (if rest \<noteq> [] then
                   gather (map (\<lambda>k. Get_loop env resource None (key_of_dkey k # rest) dflt)
                             (map fst kvs))
                 else Returns resource)
              else
                (case truthy_name (GetMatchingIndex index (\<lambda>x. key_in_dict x kvs)) of
                   Some name \<Rightarrow> Get_loop env (dict_get kvs name) meta rest dflt
                 | None \<Rightarrow>
                     if key_in_dict (Name ''items'') kvs then
                       Get_loop env
                         (GetMatchingIndexValue index
                            (\<lambda>x. GetMetaDataValue env (dict_get kvs (Name ''items'')) x
                                   (rest \<noteq> [])))
                         meta rest dflt
                     else Returns dflt))
         | _ \<Rightarrow> if index = Slice \<and> rest = [] then Returns resource else Raises TypeError)
      else
        (case class_like resource index of
           Some name \<Rightarrow>
             (case py_getattr resource name of
                Field v \<Rightarrow> Get_loop env v meta rest dflt
              | Builtin \<Rightarrow> if rest = [] then ReturnsBuiltin resource name else Unmodelled
              | NoAttr \<Rightarrow> Get_loop env dflt meta rest dflt)
         | None \<Rightarrow>
             if list_like resource then
               (case index of
                  Slice \<Rightarrow>
                    if rest \<noteq> [] then
                      (case py_len resource of
                         None \<Rightarrow> Raises TypeError
                       | Some n \<Rightarrow>
                           gather (map (\<lambda>k. Get_loop env resource None
                                                (Index (int k) # rest) dflt)
                                     [0..<n]))
                    else Returns resource
                | Name s \<Rightarrow>
                    if list_of_dicts resource then
                      (if rest \<noteq> [] then Get_loop env resource (Some s) rest dflt
                       else last_dict_slice (list_items resource) s dflt)
                    else Returns dflt
                | Index i \<Rightarrow>
                    (case py_len resource of
                       None \<Rightarrow> Raises TypeError
                     | Some n \<Rightarrow>
                         if - int n \<le> i \<and> i < int n then
                           (case py_getitem resource i of
                              None \<Rightarrow> Raises TypeError
                            | Some v \<Rightarrow> Get_loop env v meta rest dflt)
                         else Returns dflt))
             else Returns dflt))"
  by pat_completeness auto
termination
  by (relation "measure (\<lambda>(env, resource, meta, path, dflt).
        length path + length (filter (\<lambda>k. k = Slice) path))")
     (auto split: if_splits elim: key_of_dkey.elims)

text \<open>
  \<^verbatim>\<open>def Get(resource, key, default=None):
    meta = None
    for i, index in enumerate(key):
      ...
    if isinstance(resource, set):
      resource = sorted(resource)
    return resource\<close>
\<close>

definition Get :: "pyenv \<Rightarrow> pyval \<Rightarrow> key list \<Rightarrow> pyval \<Rightarrow> outcome" where
  "Get env resource key dflt = Get_loop env resource None key dflt"

section \<open>The list-likeness classifier\<close>

text \<open>
  \<^verbatim>\<open>def IsListLike(resource):
    return (isinstance(resource, list) or
            hasattr(resource, '__iter__') and hasattr(resource, 'next'))\<close>
\<close>

definition IsListLike :: "pyval \<Rightarrow> bool" where
  "IsListLike resource =
     ((case resource of PList xs \<Rightarrow> True | _ \<Rightarrow> False) \<or>
      py_hasattr resource ''__iter__'' \<and> py_hasattr resource ''next'')"

section \<open>The global restriction evaluator\<close>

text \<open>\<^verbatim>\<open>str(resource)\<close> for an integer: its decimal digits, with a sign.\<close>

definition digit_char :: "nat \<Rightarrow> char" where
  "digit_char d = digits ! d"

fun str_nat :: "nat \<Rightarrow> string" where
  "str_nat n = (if n < 10 then [digit_char n] else str_nat (n div 10) @ [digit_char (n mod 10)])"

definition str_int :: "int \<Rightarrow> string" where
  "str_int i = (if i < 0 then CHR ''-'' # str_nat (nat (- i)) else str_nat (nat i))"

text \<open>\<^verbatim>\<open>key.startswith('_')\<close>\<close>

definition startswith_underscore :: "string \<Rightarrow> bool" where
  "startswith_underscore s = (case s of [] \<Rightarrow> False | c # _ \<Rightarrow> c = CHR ''_'')"

text \<open>
  The pattern is the predicate \<^verbatim>\<open>bool(pattern.search(s))\<close> on strings. On a string or a
  number the function answers at once:

  \<^verbatim>\<open>if not resource:
    return False
  if isinstance(resource, basestring):
    try:
      return bool(pattern.search(resource))
    except TypeError:
      pass
  if isinstance(resource, (float, int)):
    try:
      return bool(pattern.search(str(resource)))
    except TypeError:
      pass\<close>

  \<^verbatim>\<open>pattern.search\<close> does not raise on a string, so the two handlers are never entered.
  A \<^verbatim>\<open>long\<close> is not an \<^verbatim>\<open>int\<close>: it falls through every branch to \<^verbatim>\<open>return False\<close>.
\<close>

definition restriction_on_key :: "(string \<Rightarrow> bool) \<Rightarrow> dkey \<Rightarrow> bool" where
  "restriction_on_key pattern k =
     (case k of
        DStr s \<Rightarrow> s \<noteq> [] \<and> pattern s
      | DInt i \<Rightarrow> i \<noteq> 0 \<and> pattern (str_int i))"

text \<open>The state of one of the three \<^verbatim>\<open>for\<close> loops when it ends.\<close>

datatype scan = Matched | Exhausted | Failed pyerr

text \<open>
  \<^verbatim>\<open>try:
    for key, value in resource.iteritems():
      if not key.startswith('_') and EvaluateGlobalRestriction(
          value, restriction, pattern):
        return True
  except AttributeError:
    try:
      for value in resource:
        if EvaluateGlobalRestriction(value, restriction, pattern):
          return True
      return False
    except TypeError:
      pass
  try:
    for key, value in resource.__dict__.iteritems():
      if not key.startswith('_') and EvaluateGlobalRestriction(
          value, restriction, pattern):
        return True
  except AttributeError:
    pass
  return False\<close>

  \<open>restriction_items\<close> is the first loop on a dictionary (an integer key has no
  \<^verbatim>\<open>startswith\<close>), \<open>restriction_values\<close> the second loop on a list, tuple or set, and
  \<open>restriction_fields\<close> the third loop on the fields of an object. On a dictionary the
  second loop runs over the keys. A field \<^verbatim>\<open>iteritems\<close> of an object is not callable: the
  call raises \<^verbatim>\<open>TypeError\<close>, which no handler of the first \<^verbatim>\<open>try\<close> catches. The argument
  \<^verbatim>\<open>restriction\<close> is only passed along and is left out.
\<close>

fun EvaluateGlobalRestriction :: "(string \<Rightarrow> bool) \<Rightarrow> pyval \<Rightarrow> pyerr + bool"
  and restriction_items :: "(string \<Rightarrow> bool) \<Rightarrow> (dkey \<times> pyval) list \<Rightarrow> scan"
  and restriction_values :: "(string \<Rightarrow> bool) \<Rightarrow> pyval list \<Rightarrow> scan"
  and restriction_fields :: "(string \<Rightarrow> bool) \<Rightarrow> (string \<times> pyval) list \<Rightarrow> scan"
where
  "EvaluateGlobalRestriction pattern PNone = Inr False"
| "EvaluateGlobalRestriction pattern (PBool b) = Inr (b \<and> pattern ''True'')"
| "EvaluateGlobalRestriction pattern (PInt i) = Inr (i \<noteq> 0 \<and> pattern (str_int i))"
| "EvaluateGlobalRestriction pattern (PLong i) = Inr False"
| "EvaluateGlobalRestriction pattern (PStr s) = Inr (s \<noteq> [] \<and> pattern s)"
| "EvaluateGlobalRestriction pattern (PList xs) =
     (case restriction_values pattern xs of
        Matched \<Rightarrow> Inr True
      | Exhausted \<Rightarrow> Inr False
      | Failed e \<Rightarrow> if e = TypeError then Inr False else Inl e)"
| "EvaluateGlobalRestriction pattern (PTuple xs) =
     (case restriction_values pattern xs of
        Matched \<Rightarrow> Inr True
      | Exhausted \<Rightarrow> Inr False
      | Failed e \<Rightarrow> if e = TypeError then Inr False else Inl e)"
| "EvaluateGlobalRestriction pattern (PSet xs) =
     (case restriction_values pattern xs of
        Matched \<Rightarrow> Inr True
      | Exhausted \<Rightarrow> Inr False
      | Failed e \<Rightarrow> if e = TypeError then Inr False else Inl e)"
| "EvaluateGlobalRestriction pattern (PDict kvs) =
     (case restriction_items pattern kvs of
        Matched \<Rightarrow> Inr True
      | Exhausted \<Rightarrow> Inr False
      | Failed e \<Rightarrow>
          if e = AttributeError
          then Inr (list_ex (\<lambda>(k, v). restriction_on_key pattern k) kvs)
          else Inl e)"
| "EvaluateGlobalRestriction pattern (PObj flds) =
     (if map_of flds ''iteritems'' \<noteq> None then Inl TypeError
      else (case restriction_fields pattern flds of
              Matched \<Rightarrow> Inr True
            | Exhausted \<Rightarrow> Inr False
            | Failed e \<Rightarrow> if e = AttributeError then Inr False else Inl e))"
| "restriction_items pattern [] = Exhausted"
| "restriction_items pattern ((k, v) # kvs) =
     (case k of
        DInt i \<Rightarrow> Failed AttributeError
      | DStr s \<Rightarrow>
          if startswith_underscore s then restriction_items pattern kvs
          else (case EvaluateGlobalRestriction pattern v of
                  Inl e \<Rightarrow> Failed e
                | Inr found \<Rightarrow> if found then Matched else restriction_items pattern kvs))"
| "restriction_values pattern [] = Exhausted"
| "restriction_values pattern (v # vs) =
     (case EvaluateGlobalRestriction pattern v of
        Inl e \<Rightarrow> Failed e
      | Inr found \<Rightarrow> if found then Matched else restriction_values pattern vs)"
| "restriction_fields pattern [] = Exhausted"
| "restriction_fields pattern ((k, v) # flds) =
     (if startswith_underscore k then restriction_fields pattern flds
      else (case EvaluateGlobalRestriction pattern v of
              Inl e \<Rightarrow> Failed e
            | Inr found \<Rightarrow> if found then Matched else restriction_fields pattern flds))"

section \<open>The evaluator on resources that may contain themselves\<close>

text \<open>
  A Python container holds references, so a dictionary can be reached from itself. To
  speak of such resources the values live in a store: a container holds the addresses
  of its members.
\<close>

type_synonym addr = nat

datatype sval =
    SNone
  | SBool bool
  | SInt int
  | SLong int
  | SStr string
  | SList "addr list"
  | STuple "addr list"
  | SSet "addr list"
  | SDict "(dkey \<times> addr) list"
  | SObj "(string \<times> addr) list"

type_synonym store = "addr \<Rightarrow> sval"

text \<open>
  The three loops of \<^verbatim>\<open>EvaluateGlobalRestriction\<close> over the members of a container;
  \<open>eval\<close> is the nested call on a member, and \<open>None\<close> says that a nested call has not
  returned.
\<close>

fun restriction_items_store ::
    "('a \<Rightarrow> (pyerr + bool) option) \<Rightarrow> (dkey \<times> 'a) list \<Rightarrow> scan option" where
  "restriction_items_store eval [] = Some Exhausted"
| "restriction_items_store eval ((k, a) # kas) =
     (case k of
        DInt i \<Rightarrow> Some (Failed AttributeError)
      | DStr s \<Rightarrow>
          if startswith_underscore s then restriction_items_store eval kas
          else (case eval a of
                  None \<Rightarrow> None
                | Some (Inl e) \<Rightarrow> Some (Failed e)
                | Some (Inr found) \<Rightarrow>
                    if found then Some Matched else restriction_items_store eval kas))"

fun restriction_values_store ::
    "('a \<Rightarrow> (pyerr + bool) option) \<Rightarrow> 'a list \<Rightarrow> scan option" where
  "restriction_values_store eval [] = Some Exhausted"
| "restriction_values_store eval (a # as) =
     (case eval a of
        None \<Rightarrow> None
      | Some (Inl e) \<Rightarrow> Some (Failed e)
      | Some (Inr found) \<Rightarrow>
          if found then Some Matched else restriction_values_store eval as)"

fun restriction_fields_store ::
    "('a \<Rightarrow> (pyerr + bool) option) \<Rightarrow> (string \<times> 'a) list \<Rightarrow> scan option" where
  "restriction_fields_store eval [] = Some Exhausted"
| "restriction_fields_store eval ((k, a) # flds) =
     (if startswith_underscore k then restriction_fields_store eval flds
      else (case eval a of
              None \<Rightarrow> None
            | Some (Inl e) \<Rightarrow> Some (Failed e)
            | Some (Inr found) \<Rightarrow>
                if found then Some Matched else restriction_fields_store eval flds))"

text \<open>
  What follows each loop. After the second loop only \<^verbatim>\<open>TypeError\<close> is caught, and the
  function goes on to \<^verbatim>\<open>resource.__dict__\<close>, which a list, tuple, set or dictionary does
  not have: \<^verbatim>\<open>return False\<close>. After the first loop on a dictionary only
  \<^verbatim>\<open>AttributeError\<close> is caught, and the second loop runs over the keys. After the third
  loop only \<^verbatim>\<open>AttributeError\<close> is caught. Any other exception leaves the function.
\<close>

definition end_of_values :: "scan option \<Rightarrow> (pyerr + bool) option" where
  "end_of_values r =
     (case r of
        None \<Rightarrow> None
      | Some Matched \<Rightarrow> Some (Inr True)
      | Some Exhausted \<Rightarrow> Some (Inr False)
      | Some (Failed e) \<Rightarrow> Some (if e = TypeError then Inr False else Inl e))"

definition end_of_items ::
    "scan option \<Rightarrow> scan option \<Rightarrow> (pyerr + bool) option" where
  "end_of_items keys r =
     (case r of
        None \<Rightarrow> None
      | Some Matched \<Rightarrow> Some (Inr True)
      | Some Exhausted \<Rightarrow> Some (Inr False)
      | Some (Failed e) \<Rightarrow> if e = AttributeError then end_of_values keys else Some (Inl e))"

definition end_of_fields :: "scan option \<Rightarrow> (pyerr + bool) option" where
  "end_of_fields r =
     (case r of
        None \<Rightarrow> None
      | Some Matched \<Rightarrow> Some (Inr True)
      | Some Exhausted \<Rightarrow> Some (Inr False)
      | Some (Failed e) \<Rightarrow> Some (if e = AttributeError then Inr False else Inl e))"

text \<open>
  \<open>EvaluateGlobalRestriction_store fuel limit\<close> is \<^verbatim>\<open>EvaluateGlobalRestriction\<close> on the value
  at an address, branch for branch, under the interpreter's recursion limit: \<open>limit\<close> is
  the number of nested calls the interpreter still allows, this call included. A call
  beyond the limit raises \<^verbatim>\<open>RuntimeError\<close>, which none of the function's handlers
  (\<^verbatim>\<open>except AttributeError\<close>, \<^verbatim>\<open>except TypeError\<close>) catches, so that it leaves every
  enclosing call. \<open>fuel\<close> bounds the recursion of the model only: \<open>None\<close> says that the call
  has not returned within \<open>fuel\<close> nested calls, and the call terminates when some \<open>fuel\<close>
  gives an outcome.

  The second loop on a dictionary calls the function on the keys, which are strings and
  integers: \<open>restriction_key_store\<close> is that nested call.
\<close>

definition restriction_key_store ::
    "nat \<Rightarrow> nat \<Rightarrow> (string \<Rightarrow> bool) \<Rightarrow> dkey \<Rightarrow> (pyerr + bool) option" where
  "restriction_key_store fuel limit pattern k =
     (if fuel = 0 then None
      else if limit = 0 then Some (Inl RuntimeError)
      else Some (Inr (restriction_on_key pattern k)))"

primrec EvaluateGlobalRestriction_store ::
    "nat \<Rightarrow> nat \<Rightarrow> (string \<Rightarrow> bool) \<Rightarrow> store \<Rightarrow> addr \<Rightarrow> (pyerr + bool) option" where
  "EvaluateGlobalRestriction_store 0 limit pattern st a = None"
| "EvaluateGlobalRestriction_store (Suc fuel) limit pattern st a =
     (case limit of
        0 \<Rightarrow> Some (Inl RuntimeError)
      | Suc remaining \<Rightarrow>
          (case st a of
             SNone \<Rightarrow> Some (Inr False)
           | SBool b \<Rightarrow> Some (Inr (b \<and> pattern ''True''))
           | SInt i \<Rightarrow> Some (Inr (i \<noteq> 0 \<and> pattern (str_int i)))
           | SLong i \<Rightarrow> Some (Inr False)
           | SStr s \<Rightarrow> Some (Inr (s \<noteq> [] \<and> pattern s))
           | SList as \<Rightarrow>
               end_of_values
                 (restriction_values_store
                    (EvaluateGlobalRestriction_store fuel remaining pattern st) as)
           | STuple as \<Rightarrow>
               end_of_values
                 (restriction_values_store
                    (EvaluateGlobalRestriction_store fuel remaining pattern st) as)
           | SSet as \<Rightarrow>
               end_of_values
                 (restriction_values_store
                    (EvaluateGlobalRestriction_store fuel remaining pattern st) as)
           | SDict kas \<Rightarrow>
               end_of_items
                 (restriction_values_store (restriction_key_store fuel remaining pattern)
                    (map fst kas))
                 (restriction_items_store
                    (EvaluateGlobalRestriction_store fuel remaining pattern st) kas)
           | SObj flds \<Rightarrow>
               if map_of flds ''iteritems'' \<noteq> None then Some (Inl TypeError)
               else end_of_fields
                      (restriction_fields_store
                         (EvaluateGlobalRestriction_store fuel remaining pattern st) flds)))"

section \<open>Notions used to state the properties\<close>

text \<open>
  \<^verbatim>\<open>'_'.join(parts)\<close>, the inverse of splitting on underscores, names the segments of an
  identifier.
\<close>

fun join_underscore :: "string list \<Rightarrow> string" where
  "join_underscore [] = []"
| "join_underscore [s] = s"
| "join_underscore (s # t # ts) = s @ CHR ''_'' # join_underscore (t # ts)"

text \<open>
  The specification's reading of the capitalisation of a segment: only its first
  character uppercased, the rest unchanged.
\<close>

fun upper_first :: "string \<Rightarrow> string" where
  "upper_first [] = []"
| "upper_first (c # cs) = to_upper c # cs"

text \<open>
  A word of an identifier: a non-empty run of lowercase letters, or a non-empty run of
  digits, so that no digit is next to a letter.
\<close>

definition is_word :: "string \<Rightarrow> bool" where
  "is_word w = (w \<noteq> [] \<and> (list_all is_lower w \<or> list_all is_digit w))"

text \<open>
  Every word that is a single letter is the last word or is followed by a word of at
  least two letters.
\<close>

fun single_letters_followed :: "string list \<Rightarrow> bool" where
  "single_letters_followed (w # v # ws) =
     ((length w = 1 \<and> list_all is_lower w \<longrightarrow> 2 \<le> length v \<and> list_all is_lower v)
      \<and> single_letters_followed (v # ws))"
| "single_letters_followed ws = True"

text \<open>
  What a word after the first becomes in the camel-case form, and what it becomes when
  that form is converted back to snake case: only a word of letters gets its underscore
  back.
\<close>

definition camel_word :: "string \<Rightarrow> string" where
  "camel_word w = (if list_all is_lower w then upper_first w else w)"

definition snake_word :: "string \<Rightarrow> string" where
  "snake_word w = (if list_all is_lower w then CHR ''_'' # w else w)"

text \<open>
  The spellings under which \<^verbatim>\<open>GetMatchingIndex\<close> looks a name up: as given, in camel
  case and in snake case.
\<close>

definition attr_variants :: "string \<Rightarrow> string list" where
  "attr_variants k = [k, ConvertToCamelCase k, ConvertToSnakeCase k]"

text \<open>
  A pattern that matches the strings containing \<open>needle\<close>, as
  \<^verbatim>\<open>re.compile(re.escape(needle))\<close> does.
\<close>

fun contains :: "string \<Rightarrow> string \<Rightarrow> bool" where
  "contains needle [] = (needle = [])"
| "contains needle (c # cs) = (take (length needle) (c # cs) = needle \<or> contains needle cs)"

text \<open>
  Two resources that differ at most in the values stored under dictionary keys that
  begin with an underscore: the same shape, the same keys in the same order, and the
  same values everywhere else.
\<close>

definition hidden_key :: "dkey \<Rightarrow> bool" where
  "hidden_key k = (case k of DStr s \<Rightarrow> startswith_underscore s | DInt i \<Rightarrow> False)"

fun same_public :: "pyval \<Rightarrow> pyval \<Rightarrow> bool"
  and same_public_items :: "(dkey \<times> pyval) list \<Rightarrow> (dkey \<times> pyval) list \<Rightarrow> bool"
  and same_public_values :: "pyval list \<Rightarrow> pyval list \<Rightarrow> bool"
  and same_public_fields :: "(string \<times> pyval) list \<Rightarrow> (string \<times> pyval) list \<Rightarrow> bool"
where
  "same_public v w =
     (case (v, w) of
        (PDict kvs, PDict kvs') \<Rightarrow> same_public_items kvs kvs'
      | (PList xs, PList ys) \<Rightarrow> same_public_values xs ys
      | (PTuple xs, PTuple ys) \<Rightarrow> same_public_values xs ys
      | (PSet xs, PSet ys) \<Rightarrow> same_public_values xs ys
      | (PObj flds, PObj flds') \<Rightarrow> same_public_fields flds flds'
      | _ \<Rightarrow> v = w)"
| "same_public_items [] kvs' = (kvs' = [])"
| "same_public_items ((k, v) # kvs) kvs' =
     (case kvs' of
        [] \<Rightarrow> False
      | (k', v') # rest \<Rightarrow>
          k = k' \<and> (hidden_key k \<or> same_public v v') \<and> same_public_items kvs rest)"
| "same_public_values [] ys = (ys = [])"
| "same_public_values (x # xs) ys =
     (case ys of
        [] \<Rightarrow> False
      | y # rest \<Rightarrow> same_public x y \<and> same_public_values xs rest)"
| "same_public_fields [] flds' = (flds' = [])"
| "same_public_fields ((k, v) # flds) flds' =
     (case flds' of
        [] \<Rightarrow> False
      | (k', v') # rest \<Rightarrow>
          k = k' \<and> same_public v v' \<and> same_public_fields flds rest)"

text \<open>
  The store holds the tree \<open>v\<close> at address \<open>a\<close>: what is reachable from \<open>a\<close> is a finite
  tree, so no value is reached from itself.
\<close>

fun represents :: "store \<Rightarrow> addr \<Rightarrow> pyval \<Rightarrow> bool" where
  "represents st a PNone = (st a = SNone)"
| "represents st a (PBool b) = (st a = SBool b)"
| "represents st a (PInt i) = (st a = SInt i)"
| "represents st a (PLong i) = (st a = SLong i)"
| "represents st a (PStr s) = (st a = SStr s)"
| "represents st a (PList xs) =
     (case st a of SList as \<Rightarrow> list_all2 (\<lambda>x a'. represents st a' x) xs as | _ \<Rightarrow> False)"
| "represents st a (PTuple xs) =
     (case st a of STuple as \<Rightarrow> list_all2 (\<lambda>x a'. represents st a' x) xs as | _ \<Rightarrow> False)"
| "represents st a (PSet xs) =
     (case st a of SSet as \<Rightarrow> list_all2 (\<lambda>x a'. represents st a' x) xs as | _ \<Rightarrow> False)"
| "represents st a (PDict kvs) =
     (case st a of
        SDict kas \<Rightarrow>
          list_all2 (\<lambda>kv ka. fst kv = fst ka \<and> represents st (snd ka) (snd kv)) kvs kas
      | _ \<Rightarrow> False)"
| "represents st a (PObj flds) =
     (case st a of
        SObj fas \<Rightarrow>
          list_all2 (\<lambda>kv ka. fst kv = fst ka \<and> represents st (snd ka) (snd kv)) flds fas
      | _ \<Rightarrow> False)"

text \<open>
  The number of nested calls that the evaluation of a tree can need: one for a scalar,
  and one more than its members need for a container (the keys of a dictionary count
  as members).
\<close>

definition list_max :: "nat list \<Rightarrow> nat" where
  "list_max ns = foldr max ns 0"

fun nesting :: "pyval \<Rightarrow> nat" where
  "nesting (PList xs) = Suc (list_max (map nesting xs))"
| "nesting (PTuple xs) = Suc (list_max (map nesting xs))"
| "nesting (PSet xs) = Suc (list_max (map nesting xs))"
| "nesting (PDict kvs) = Suc (list_max (1 # map (\<lambda>kv. nesting (snd kv)) kvs))"
| "nesting (PObj flds) = Suc (list_max (map (\<lambda>kv. nesting (snd kv)) flds))"
| "nesting v = 1"

text \<open>A dictionary that holds itself under the key \<^verbatim>\<open>self\<close>: \<^verbatim>\<open>d = {}; d['self'] = d\<close>.\<close>

definition self_referential :: store where
  "self_referential = (\<lambda>a. SNone)(0 := SDict [(DStr ''self'', 0)])"

section \<open>Properties of the case converters\<close>

declare snake_sub.simps(2) [simp del]

subsection \<open>Character tables\<close>

lemma lower_table:
  "list_all (\<lambda>c. is_upper (to_upper c) \<and> to_lower (to_upper c) = c \<and> \<not> is_upper c
     \<and> c \<noteq> CHR ''_'' \<and> \<not> is_lower (to_upper c) \<and> to_lower c = c \<and> c \<noteq> CHR 0x0A
     \<and> \<not> is_digit (to_upper c))
     ascii_lowercase"
  by code_simp

lemma lower_facts:
  assumes "is_lower c"
  shows "is_upper (to_upper c)" "to_lower (to_upper c) = c" "\<not> is_upper c"
    "c \<noteq> CHR ''_''" "\<not> is_lower (to_upper c)" "to_lower c = c" "c \<noteq> CHR 0x0A"
    "\<not> is_digit (to_upper c)"
  using assms lower_table unfolding is_lower_def list_all_iff by blast+

lemma digit_table:
  "list_all (\<lambda>c. \<not> is_upper c \<and> \<not> is_lower c \<and> c \<noteq> CHR ''_'' \<and> to_lower c = c) digits"
  by code_simp

lemma digit_facts:
  assumes "is_digit c"
  shows "\<not> is_upper c" "\<not> is_lower c" "c \<noteq> CHR ''_''" "to_lower c = c"
  using assms digit_table unfolding is_digit_def list_all_iff by blast+

subsection \<open>Splitting, joining and title case\<close>

lemma split_no_underscore: "CHR ''_'' \<notin> set p \<Longrightarrow> split_underscore p = [p]"
  by (induction p) auto

lemma split_append_underscore:
  "CHR ''_'' \<notin> set p \<Longrightarrow> split_underscore (p @ CHR ''_'' # r) = p # split_underscore r"
  by (induction p) auto

lemma split_join:
  "\<forall>seg\<in>set (p # ps). CHR ''_'' \<notin> set seg \<Longrightarrow>
     split_underscore (join_underscore (p # ps)) = p # ps"
proof (induction ps arbitrary: p)
  case Nil
  then show ?case by (simp add: split_no_underscore)
next
  case (Cons q qs)
  then show ?case by (simp add: split_append_underscore)
qed

lemma camel_join:
  "\<forall>seg\<in>set (p # ps). CHR ''_'' \<notin> set seg \<Longrightarrow>
     ConvertToCamelCase (join_underscore (p # ps)) = p @ concat (map title ps)"
  by (simp add: ConvertToCamelCase_def split_join del: join_underscore.simps)

lemma title_from_True_lower: "list_all is_lower w \<Longrightarrow> title_from True w = w"
  by (induction w) auto

lemma title_lower: "list_all is_lower w \<Longrightarrow> title w = upper_first w"
  by (cases w) (auto simp: title_def title_from_True_lower)

lemma lower_no_underscore: "list_all is_lower w \<Longrightarrow> CHR ''_'' \<notin> set w"
  by (induction w) (auto dest: lower_facts(4))


lemma to_lower_underscore: "to_lower CHR ''_'' = CHR ''_''"
  by code_simp

lemma lower_id: "list_all is_lower w \<Longrightarrow> lower w = w"
  by (induction w) (auto simp: lower_def lower_facts(6))

subsection \<open>The scan of the snake-case pattern\<close>

lemma snake_match_not_upper: "\<not> is_upper c \<Longrightarrow> snake_match prev (c # cs) = 0"
  by (simp add: snake_match_def)

lemma snake_sub_lower_run:
  "list_all is_lower w \<Longrightarrow>
     snake_sub prev (w @ r) = w @ snake_sub (if w = [] then prev else Some (last w)) r"
proof (induction w arbitrary: prev)
  case Nil
  then show ?case by simp
next
  case (Cons c w)
  then have "\<not> is_upper c" by (simp add: lower_facts(3))
  then have "snake_match prev (c # w @ r) = 0" by (rule snake_match_not_upper)
  with Cons show ?case by (simp add: snake_sub.simps(2))
qed

lemma snake_match_capital_lower:
  assumes "is_upper C" "is_lower d"
  shows "snake_match (Some q) (C # d # r) = 1"
proof -
  have "\<not> is_upper d" using assms(2) by (rule lower_facts(3))
  then have run: "length (takeWhile is_upper (C # d # r)) = 1" using assms(1) by simp
  have "d \<noteq> CHR 0x0A" using assms(2) by (rule lower_facts(7))
  then have "\<not> at_end (d # r)" by (simp add: at_end_def)
  then show ?thesis using assms(2)
    by (simp only: snake_match_def run Let_def) (simp add: followed_by_lower_def)
qed

lemma title_from_digits: "list_all is_digit w \<Longrightarrow> title_from b w = w"
  by (induction w arbitrary: b) (auto simp: digit_facts)

lemma title_from_append_digits:
  "list_all is_digit d \<Longrightarrow> title_from b (x @ d) = title_from b x @ d"
  by (induction x arbitrary: b) (auto simp: title_from_digits)

lemma title_word: "is_word w \<Longrightarrow> title w = camel_word w"
proof (cases "list_all is_lower w")
  case True
  then show ?thesis by (simp add: camel_word_def title_lower)
next
  case False
  assume "is_word w"
  with False have "list_all is_digit w" by (simp add: is_word_def)
  then show ?thesis using False by (simp add: camel_word_def title_def title_from_digits)
qed

lemma word_no_underscore: "is_word w \<Longrightarrow> CHR ''_'' \<notin> set w"
  by (auto simp: is_word_def list_all_iff dest: lower_facts(4) digit_facts(3))

lemma word_not_upper: "is_word w \<Longrightarrow> list_all (\<lambda>c. \<not> is_upper c) w"
  by (auto simp: is_word_def list_all_iff dest: lower_facts(3) digit_facts(1))

lemma word_lower_id: "is_word w \<Longrightarrow> lower w = w"
proof -
  assume "is_word w"
  then have "\<forall>c\<in>set w. to_lower c = c"
    by (auto simp: is_word_def list_all_iff dest: lower_facts(6) digit_facts(4))
  then show ?thesis unfolding lower_def by (intro map_idI) simp
qed

lemma word_last_alnum: "is_word w \<Longrightarrow> lookbehind_alnum (Some (last w))"
proof -
  assume w: "is_word w"
  then have "last w \<in> set w" by (simp add: is_word_def)
  with w show ?thesis by (auto simp: is_word_def lookbehind_alnum_def list_all_iff)
qed

lemma snake_sub_no_capitals:
  "list_all (\<lambda>c. \<not> is_upper c) w \<Longrightarrow>
     snake_sub prev (w @ r) = w @ snake_sub (if w = [] then prev else Some (last w)) r"
proof (induction w arbitrary: prev)
  case Nil
  then show ?case by simp
next
  case (Cons c w)
  then have "snake_match prev (c # w @ r) = 0" by (simp add: snake_match_not_upper)
  with Cons show ?case by (simp add: snake_sub.simps(2))
qed

lemma snake_match_capital_end_alnum:
  assumes "is_upper C" "lookbehind_alnum (Some q)"
  shows "snake_match (Some q) [C] = 1"
  using assms by (simp add: snake_match_def at_end_def)

lemma snake_match_two_capitals_alnum:
  assumes "is_upper C" "is_upper D" "is_lower d" "lookbehind_alnum (Some q)"
  shows "snake_match (Some q) (C # D # d # r) = 1"
proof -
  have "\<not> is_upper d" using assms(3) by (rule lower_facts(3))
  then have run: "length (takeWhile is_upper (C # D # d # r)) = 2" using assms(1,2) by simp
  have "d \<noteq> CHR 0x0A" using assms(3) by (rule lower_facts(7))
  then have "\<not> at_end (d # r)" by (simp add: at_end_def)
  then show ?thesis using assms(3,4)
    by (simp only: snake_match_def run Let_def) (simp add: followed_by_lower_def)
qed

lemma snake_sub_camel_words:
  assumes "\<forall>w\<in>set ps. is_word w"
    and "single_letters_followed ps"
    and "lookbehind_alnum (Some q) \<or>
         (ps \<noteq> [] \<longrightarrow> 2 \<le> length (hd ps) \<and> list_all is_lower (hd ps))"
  shows "lower (snake_sub (Some q) (concat (map camel_word ps))) =
           concat (map snake_word ps)"
  using assms
proof (induction ps arbitrary: q)
  case Nil
  then show ?case by (simp add: lower_def)
next
  case (Cons w rest)
  let ?R = "concat (map camel_word rest)"
  have word: "is_word w" and rest_ok: "\<forall>w\<in>set rest. is_word w" using Cons.prems(1) by simp_all
  have rest_sl: "single_letters_followed rest" using Cons.prems(2) by (cases rest) auto
  show ?case
  proof (cases "list_all is_lower w")
    case False
    then have dig: "list_all is_digit w" and ne: "w \<noteq> []" using word by (auto simp: is_word_def)
    have cw: "camel_word w = w" "snake_word w = w" using False by (simp_all add: camel_word_def snake_word_def)
    have "snake_sub (Some q) (w @ ?R) = w @ snake_sub (Some (last w)) ?R"
      using snake_sub_no_capitals[OF word_not_upper[OF word], of "Some q" ?R] ne by simp
    moreover have "lower (snake_sub (Some (last w)) ?R) = concat (map snake_word rest)"
      using Cons.IH[OF rest_ok rest_sl, of "last w"] word_last_alnum[OF word] by blast
    ultimately show ?thesis using cw word_lower_id[OF word] by (simp add: lower_def)
  next
    case True
    then obtain c cs where w: "w = c # cs" and lc: "is_lower c" and lcs: "list_all is_lower cs"
      using word by (cases w) (auto simp: is_word_def)
    let ?C = "to_upper c"
    have uC: "is_upper ?C" and lC: "to_lower ?C = c" using lc by (simp_all add: lower_facts)
    have cw: "camel_word w = ?C # cs" "snake_word w = CHR ''_'' # c # cs"
      using True w by (simp_all add: camel_word_def snake_word_def)
    show ?thesis
    proof (cases cs)
      case (Cons d ds)
      then have ld: "is_lower d" using lcs by simp
      have m: "snake_match (Some q) (?C # d # ds @ ?R) = 1"
        using uC ld by (rule snake_match_capital_lower)
      have step: "snake_sub (Some q) (?C # d # ds @ ?R) =
          CHR ''_'' # ?C # snake_sub (Some ?C) ((d # ds) @ ?R)"
        using m by (simp add: snake_sub.simps(2))
      have run: "snake_sub (Some ?C) ((d # ds) @ ?R) =
          (d # ds) @ snake_sub (Some (last (d # ds))) ?R"
        using lcs Cons snake_sub_lower_run[of "d # ds" "Some ?C" ?R] by simp
      have "is_lower (last (d # ds))"
        using lcs Cons by (metis last_in_set list.distinct(1) list_all_iff)
      then have "lookbehind_alnum (Some (last (d # ds)))" by (simp add: lookbehind_alnum_def)
      then have ih: "lower (snake_sub (Some (last (d # ds))) ?R) = concat (map snake_word rest)"
        using Cons.IH[OF rest_ok rest_sl] by blast
      have "lower (d # ds) = d # ds" using lcs Cons lower_id by simp
      then show ?thesis
        using step run ih lC cw Cons by (simp add: lower_def to_lower_underscore)
    next
      case Nil
      then have single: "length w = 1" using w by simp
      then have lq: "lookbehind_alnum (Some q)" using Cons.prems(3) by auto
      show ?thesis
      proof (cases rest)
        case Nil
        have "snake_match (Some q) [?C] = 1" using uC lq by (rule snake_match_capital_end_alnum)
        then show ?thesis using cw \<open>cs = []\<close> Nil lC
          by (simp add: lower_def snake_sub.simps(2) to_lower_underscore)
      next
        case (Cons v vs)
        from Cons.prems(2) Cons single True have v2: "2 \<le> length v" and lv: "list_all is_lower v"
          by simp_all
        then obtain e f fs where v: "v = e # f # fs" and le: "is_lower e" and lf: "is_lower f"
          by (cases v; cases "tl v") auto
        have R: "?R = to_upper e # f # fs @ concat (map camel_word vs)"
          using Cons v lv by (simp add: camel_word_def)
        have "snake_match (Some q) (?C # to_upper e # f # fs @ concat (map camel_word vs)) = 1"
          using uC lower_facts(1)[OF le] lf lq by (rule snake_match_two_capitals_alnum)
        then have step: "snake_sub (Some q) (?C # ?R) = CHR ''_'' # ?C # snake_sub (Some ?C) ?R"
          using R by (simp add: snake_sub.simps(2))
        have "2 \<le> length (hd rest) \<and> list_all is_lower (hd rest)" using Cons v2 lv by simp
        then have "lower (snake_sub (Some ?C) ?R) = concat (map snake_word rest)"
          using Cons.IH[OF rest_ok rest_sl, of ?C] by blast
        then show ?thesis using step cw \<open>cs = []\<close> lC
          by (simp add: lower_def to_lower_underscore)
      qed
    qed
  qed
qed


lemma camel_plain: "CHR ''_'' \<notin> set acc \<Longrightarrow> ConvertToCamelCase acc = acc"
  by (simp add: ConvertToCamelCase_def split_no_underscore)

lemma camel_first:
  "CHR ''_'' \<notin> set acc \<Longrightarrow>
     ConvertToCamelCase (acc @ CHR ''_'' # y) = acc @ concat (map title (split_underscore y))"
  by (simp add: ConvertToCamelCase_def split_append_underscore)

lemma title_append_digits: "list_all is_digit d \<Longrightarrow> title (x @ d) = title x @ d"
  by (simp add: title_def title_from_append_digits)

lemma camel_later_segments:
  assumes "CHR ''_'' \<notin> set acc" "\<forall>w\<in>set ws. is_word w"
  shows "concat (map title (split_underscore (acc @ concat (map snake_word ws)))) =
           title acc @ concat (map camel_word ws)"
  using assms
proof (induction ws arbitrary: acc)
  case Nil
  then show ?case by (simp add: split_no_underscore)
next
  case (Cons w ws)
  then have word: "is_word w" and rest: "\<forall>w\<in>set ws. is_word w" by simp_all
  show ?case
  proof (cases "list_all is_lower w")
    case True
    have "concat (map title (split_underscore (w @ concat (map snake_word ws)))) =
        title w @ concat (map camel_word ws)"
      using Cons.IH[OF word_no_underscore[OF word] rest] .
    moreover have "snake_word w = CHR ''_'' # w" using True by (simp add: snake_word_def)
    ultimately show ?thesis
      using Cons.prems(1) title_word[OF word]
      by (simp add: split_append_underscore)
  next
    case False
    then have dig: "list_all is_digit w" using word by (simp add: is_word_def)
    have sw: "snake_word w = w" "camel_word w = w"
      using False by (simp_all add: snake_word_def camel_word_def)
    have "CHR ''_'' \<notin> set (acc @ w)"
      using Cons.prems(1) word_no_underscore[OF word] by simp
    from Cons.IH[OF this rest]
    show ?thesis
      using sw dig by (simp add: title_append_digits)
  qed
qed

lemma camel_of_snake_words:
  assumes "CHR ''_'' \<notin> set acc" "\<forall>w\<in>set ps. is_word w"
  shows "ConvertToCamelCase (acc @ concat (map snake_word ps)) =
           acc @ concat (map camel_word ps)"
  using assms
proof (induction ps arbitrary: acc)
  case Nil
  then show ?case by (simp add: camel_plain)
next
  case (Cons w ws)
  then have word: "is_word w" and rest: "\<forall>w\<in>set ws. is_word w" by simp_all
  show ?case
  proof (cases "list_all is_lower w")
    case True
    have "concat (map title (split_underscore (w @ concat (map snake_word ws)))) =
        title w @ concat (map camel_word ws)"
      using camel_later_segments[OF word_no_underscore[OF word] rest] .
    moreover have "snake_word w = CHR ''_'' # w" using True by (simp add: snake_word_def)
    ultimately show ?thesis
      using camel_first[OF Cons.prems(1)] title_word[OF word]
      by simp
  next
    case False
    have sw: "snake_word w = w" "camel_word w = w"
      using False by (simp_all add: snake_word_def camel_word_def)
    have "CHR ''_'' \<notin> set (acc @ w)"
      using Cons.prems(1) word_no_underscore[OF word] by simp
    from Cons.IH[OF this rest]
    show ?thesis using sw by simp
  qed
qed

lemma camel_of_words:
  assumes "is_word p" "\<forall>w\<in>set ps. is_word w"
  shows "ConvertToCamelCase (join_underscore (p # ps)) = p @ concat (map camel_word ps)"
proof -
  have "\<forall>seg\<in>set (p # ps). CHR ''_'' \<notin> set seg"
    using assms by (auto dest: word_no_underscore)
  moreover have "map title ps = map camel_word ps" using assms(2) by (simp add: title_word)
  ultimately show ?thesis using camel_join[of p ps] by (simp only:)
qed

lemma snake_of_camel_words:
  assumes "is_word p" "\<forall>w\<in>set ps. is_word w" "single_letters_followed ps"
  shows "ConvertToSnakeCase (ConvertToCamelCase (join_underscore (p # ps))) =
           p @ concat (map snake_word ps)"
proof -
  have ne: "p \<noteq> []" using assms(1) by (simp add: is_word_def)
  have "lower (snake_sub (Some (last p)) (concat (map camel_word ps))) =
      concat (map snake_word ps)"
    using snake_sub_camel_words[OF assms(2,3)] word_last_alnum[OF assms(1)] by blast
  moreover have "snake_sub None (p @ concat (map camel_word ps)) =
      p @ snake_sub (Some (last p)) (concat (map camel_word ps))"
    using snake_sub_no_capitals[OF word_not_upper[OF assms(1)]] ne by simp
  ultimately show ?thesis
    using camel_of_words[OF assms(1,2)] word_lower_id[OF assms(1)]
    by (simp add: ConvertToSnakeCase_def lower_def)
qed

lemma join_as_concat:
  "join_underscore (p # ps) = p @ concat (map (\<lambda>w. CHR ''_'' # w) ps)"
  by (induction ps arbitrary: p) auto

lemma snake_words_join:
  assumes "\<forall>w\<in>set ps. list_all is_lower w"
  shows "p @ concat (map snake_word ps) = join_underscore (p # ps)"
proof -
  have "map snake_word ps = map (\<lambda>w. CHR ''_'' # w) ps"
    using assms by (simp add: snake_word_def)
  then show ?thesis by (simp only: join_as_concat)
qed

subsection \<open>ConvertToCamelCase\<close>

text \<open>
  C5 (as amended). For every name made of segments joined by underscores,
  \<open>ConvertToCamelCase\<close> returns the first segment unchanged followed by every remaining
  segment in title case (\<^verbatim>\<open>str.title\<close>: a letter that starts the segment or follows a
  non-letter is uppercased, a letter that follows a letter is lowercased). When the
  remaining segments consist of lowercase letters this is the segment with only its
  first character uppercased and the rest unchanged.
\<close>

theorem ConvertToCamelCase_segments:
  "(\<forall>seg\<in>set (p # ps). CHR ''_'' \<notin> set seg) \<longrightarrow>
     ConvertToCamelCase (join_underscore (p # ps)) = p @ concat (map title ps) \<and>
     ((\<forall>seg\<in>set ps. list_all is_lower seg) \<longrightarrow>
        ConvertToCamelCase (join_underscore (p # ps)) = p @ concat (map upper_first ps))"
proof (intro impI conjI)
  assume nus: "\<forall>seg\<in>set (p # ps). CHR ''_'' \<notin> set seg"
  then show camel: "ConvertToCamelCase (join_underscore (p # ps)) = p @ concat (map title ps)"
    by (rule camel_join)
  assume "\<forall>seg\<in>set ps. list_all is_lower seg"
  then have "map title ps = map upper_first ps" by (simp add: title_lower)
  with camel show "ConvertToCamelCase (join_underscore (p # ps)) =
      p @ concat (map upper_first ps)"
    by (simp only:)
qed

theorem ConvertToCamelCase_segments_witness:
  "ConvertToCamelCase (join_underscore [''log'', ''url'']) = ''log'' @ concat (map title [''url''])
   \<and> ConvertToCamelCase ''log_url'' = ''logUrl''"
proof -
  have h1: "\<forall>seg\<in>set [''log'', ''url'']. CHR ''_'' \<notin> set seg" by simp
  have h2: "\<forall>seg\<in>set [''url'']. list_all is_lower seg"
    by (simp add: is_lower_def ascii_lowercase_def)
  have u: "to_upper CHR ''u'' = CHR ''U''" "title ''url'' = ''Url''" by code_simp+
  from ConvertToCamelCase_segments[of "''log''" "[''url'']"] h1 h2 u
  show ?thesis by simp
qed

text \<open>
  The claim as the specification words it fails where a later segment has a capital
  after its first character, or a letter after a digit.
\<close>

theorem ConvertToCamelCase_rest_changed:
  "ConvertToCamelCase ''foo_bAR'' = ''fooBar''
   \<and> ''foo'' @ concat (map upper_first [''bAR'']) = ''fooBAR''
   \<and> ConvertToCamelCase ''foo_a1b'' = ''fooA1B''
   \<and> ''foo'' @ concat (map upper_first [''a1b'']) = ''fooA1b''"
  by code_simp

subsection \<open>The round trip through snake case\<close>

text \<open>
  C6 (as amended). For every identifier made of words joined by single underscores,
  each word a non-empty run of lowercase ASCII letters or a non-empty run of digits, in
  which every single-letter word after the first is the last word or is followed by a
  word of at least two letters, the camel-case form is a fixed point of the
  snake-then-camel round trip; when all the words after the first are made of letters,
  converting the camel-case form to snake case gives the identifier back.
\<close>

theorem camel_fixed_point:
  assumes "is_word p"
    and "\<forall>w\<in>set ps. is_word w"
    and "single_letters_followed ps"
  shows "ConvertToCamelCase (ConvertToSnakeCase (ConvertToCamelCase (join_underscore (p # ps)))) =
           ConvertToCamelCase (join_underscore (p # ps))
         \<and> ((\<forall>w\<in>set ps. list_all is_lower w) \<longrightarrow>
              ConvertToSnakeCase (ConvertToCamelCase (join_underscore (p # ps))) =
                join_underscore (p # ps))"
proof (intro conjI impI)
  have "CHR ''_'' \<notin> set p" using assms(1) by (rule word_no_underscore)
  then show "ConvertToCamelCase (ConvertToSnakeCase (ConvertToCamelCase (join_underscore (p # ps)))) =
           ConvertToCamelCase (join_underscore (p # ps))"
    using snake_of_camel_words[OF assms] camel_of_snake_words[of p ps] assms(2)
      camel_of_words[OF assms(1,2)]
    by simp
next
  assume "\<forall>w\<in>set ps. list_all is_lower w"
  then show "ConvertToSnakeCase (ConvertToCamelCase (join_underscore (p # ps))) =
                join_underscore (p # ps)"
    using snake_of_camel_words[OF assms] snake_words_join[of ps p] by simp
qed


theorem camel_fixed_point_witness:
  "ConvertToCamelCase (ConvertToSnakeCase (ConvertToCamelCase ''http_status_code_7_x'')) =
     ConvertToCamelCase ''http_status_code_7_x''
   \<and> ConvertToSnakeCase (ConvertToCamelCase ''http_status_code'') = ''http_status_code''"
proof -
  have h1: "is_word ''http''" by code_simp
  have h2: "\<forall>w\<in>set [''status'', ''code'', ''7'', ''x'']. is_word w" by code_simp
  have h3: "single_letters_followed [''status'', ''code'', ''7'', ''x'']" by code_simp
  have k2: "\<forall>w\<in>set [''status'', ''code'']. is_word w" by code_simp
  have k3: "single_letters_followed [''status'', ''code'']" by code_simp
  have k4: "\<forall>w\<in>set [''status'', ''code'']. list_all is_lower w" by code_simp
  from camel_fixed_point[OF h1 h2 h3] camel_fixed_point[OF h1 k2 k3] k4
  show ?thesis by simp
qed

text \<open>
  The claim as stated fails for identifiers with single underscores and no digit next to
  a letter: two neighbouring single-letter words, a capital in the identifier, a
  leading underscore, and a single-letter word before a word of digits.
\<close>

theorem camel_not_fixed_point:
  "ConvertToCamelCase (ConvertToSnakeCase (ConvertToCamelCase ''a_b_c'')) \<noteq>
     ConvertToCamelCase ''a_b_c''
   \<and> ConvertToCamelCase (ConvertToSnakeCase (ConvertToCamelCase ''FooBar'')) \<noteq>
     ConvertToCamelCase ''FooBar''
   \<and> ConvertToCamelCase (ConvertToSnakeCase (ConvertToCamelCase ''_foo'')) \<noteq>
     ConvertToCamelCase ''_foo''
   \<and> ConvertToCamelCase (ConvertToSnakeCase (ConvertToCamelCase ''ab_c_1'')) \<noteq>
     ConvertToCamelCase ''ab_c_1''"
  by code_simp


section \<open>Properties of the path resolver\<close>

declare Get_loop.simps(2) [simp del]

subsection \<open>A list whose later elements are not dictionaries\<close>

text \<open>
  C1. \<^verbatim>\<open>Get\<close> is documented never to raise. On a list that starts with a dictionary and
  holds a value of another shape, a final string key reaches
  \<^verbatim>\<open>[d.get(index) for d in resource]\<close>, which is not guarded: the call raises
  \<^verbatim>\<open>AttributeError\<close>, for every \<^verbatim>\<open>sorted\<close> and \<^verbatim>\<open>json.loads\<close>.
\<close>

theorem Get_raises_on_mixed_list:
  "Get env (PList [PDict [(DStr ''k'', PStr ''x'')], PInt 5]) [Name ''k''] PNone =
     Raises AttributeError"
  by code_simp

subsection \<open>An absent resource\<close>

lemma Get_loop_None:
  "Get_loop env PNone meta (index # rest) dflt = Returns dflt"
  by (simp add: Get_loop.simps(2) sort_if_set_def)

text \<open>
  C2 (as amended). For every non-empty path and every default, \<^verbatim>\<open>Get(None, path, default)\<close>
  is the default; and at any step of the walk, whatever name is pending, an absent
  resource ends the walk with the default.
\<close>

theorem Get_None_nonempty_path:
  "path \<noteq> [] \<longrightarrow>
     Get env PNone path dflt = Returns dflt \<and> Get_loop env PNone meta path dflt = Returns dflt"
  by (cases path) (simp_all add: Get_def Get_loop_None)

theorem Get_None_nonempty_path_witness:
  "\<forall>env. Get env PNone [Name ''x''] (PInt 7) = Returns (PInt 7)
     \<and> Get_loop env PNone (Some ''m'') [Name ''x'', Slice] (PInt 7) = Returns (PInt 7)"
  using Get_None_nonempty_path[of "[Name ''x'']" _ "PInt 7"]
    Get_None_nonempty_path[of "[Name ''x'', Slice]" _ "PInt 7" "Some ''m''"]
  by simp

text \<open>
  With the empty path the loop body never runs, and \<^verbatim>\<open>Get\<close> returns the resource itself,
  \<^verbatim>\<open>None\<close>, not the default.
\<close>

theorem Get_None_empty_path:
  "\<forall>env. Get env PNone [] (PInt 5) = Returns PNone
     \<and> Get env PNone [] (PInt 5) \<noteq> Returns (PInt 5)"
  by (simp add: Get_def sort_if_set_def)

subsection \<open>A string key on a list\<close>

lemma list_not_dict_like: "\<not> py_hasattr (PList xs) ''iteritems''"
  by code_simp

lemma list_is_list_like: "list_like (PList xs)"
  by code_simp

lemma hasattr_list: "py_hasattr (PList xs) x = (x \<in> set list_attrs)"
  by (simp add: py_hasattr_def py_getattr_def)

lemma class_like_list_None:
  "\<forall>x\<in>set (attr_variants k). x \<notin> set list_attrs \<Longrightarrow> class_like (PList xs) (Name k) = None"
  by (simp add: class_like_def GetMatchingIndex_def truthy_name_def hasattr_list attr_variants_def)

lemma field_values_dicts:
  "field_values (map PDict kvss) k = Inr (map (\<lambda>kvs. dict_get kvs (Name k)) kvss)"
  by (induction kvss) simp_all

lemma Get_loop_list_name_last:
  assumes "class_like (PList xs) (Name k) = None" "\<not> meta_truthy meta"
  shows "Get_loop env (PList xs) meta [Name k] dflt =
           (if list_of_dicts (PList xs) then last_dict_slice xs k dflt else Returns dflt)"
  using assms
  by (simp add: Get_loop.simps(2) sort_if_set_def list_not_dict_like list_is_list_like)


text \<open>
  C3 (as amended). For every non-empty list of dictionaries and every string key given
  as the final path element that is not, as given or converted to camel case or snake
  case, the name of an attribute of a list, \<^verbatim>\<open>Get\<close> returns the list of that field's
  values read off every element, with absent and falsy values dropped, and the default
  when that list is empty.
\<close>

theorem Get_last_dict_slice:
  assumes "kvss \<noteq> []"
    and "\<forall>x\<in>set (attr_variants k). x \<notin> set list_attrs"
    and "\<not> meta_truthy meta"
  shows "Get_loop env (PList (map PDict kvss)) meta [Name k] dflt =
           (if filter py_truthy (map (\<lambda>kvs. dict_get kvs (Name k)) kvss) = [] then Returns dflt
            else Returns (PList (filter py_truthy (map (\<lambda>kvs. dict_get kvs (Name k)) kvss))))"
proof -
  have "list_of_dicts (PList (map PDict kvss))" using assms(1) by (cases kvss) simp_all
  then show ?thesis
    using Get_loop_list_name_last[OF class_like_list_None[OF assms(2)] assms(3)]
    by (simp add: last_dict_slice_def field_values_dicts)
qed


theorem Get_last_dict_slice_witness:
  "\<forall>env. Get env (PList [PDict [(DStr ''k'', PStr ''x'')], PDict [(DStr ''k'', PStr ''y'')],
                          PDict []]) [Name ''k''] PNone =
           Returns (PList [PStr ''x'', PStr ''y''])"
proof
  fix env
  have h1: "[[(DStr ''k'', PStr ''x'')], [(DStr ''k'', PStr ''y'')], []] \<noteq> []" by simp
  have h2: "\<forall>x\<in>set (attr_variants ''k''). x \<notin> set list_attrs" by code_simp
  have h3: "\<not> meta_truthy None" by (simp add: meta_truthy_def)
  show "Get env (PList [PDict [(DStr ''k'', PStr ''x'')], PDict [(DStr ''k'', PStr ''y'')],
                          PDict []]) [Name ''k''] PNone =
           Returns (PList [PStr ''x'', PStr ''y''])"
    using Get_last_dict_slice[OF h1 h2 h3, of env PNone]
    by (simp add: Get_def dict_get_def dict_lookup_def)
qed

text \<open>
  A key that names a method of the list is taken by the attribute branch, which comes
  first: \<^verbatim>\<open>Get([{'count': 1}], ['count'], None)\<close> is the bound method \<^verbatim>\<open>count\<close> of the list.
\<close>

theorem Get_last_dict_slice_method:
  "\<forall>env. Get env (PList [PDict [(DStr ''count'', PInt 1)]]) [Name ''count''] PNone =
           ReturnsBuiltin (PList [PDict [(DStr ''count'', PInt 1)]]) ''count''
     \<and> Get env (PList [PDict [(DStr ''count'', PInt 1)]]) [Name ''count''] PNone \<noteq>
           Returns (PList [PInt 1])"
proof
  fix env
  have "Get env (PList [PDict [(DStr ''count'', PInt 1)]]) [Name ''count''] PNone =
           ReturnsBuiltin (PList [PDict [(DStr ''count'', PInt 1)]]) ''count''"
    by code_simp
  then show "Get env (PList [PDict [(DStr ''count'', PInt 1)]]) [Name ''count''] PNone =
           ReturnsBuiltin (PList [PDict [(DStr ''count'', PInt 1)]]) ''count''
     \<and> Get env (PList [PDict [(DStr ''count'', PInt 1)]]) [Name ''count''] PNone \<noteq>
           Returns (PList [PInt 1])"
    by simp
qed

text \<open>
  C10 (as amended). The branch is chosen by the first element alone: for every list
  that is empty or whose first element is not a dictionary, a final string key that is
  not, as given or converted, the name of an attribute of a list returns the default,
  whatever the later elements are.
\<close>

theorem Get_list_mismatch:
  assumes "\<not> list_of_dicts (PList xs)"
    and "\<forall>x\<in>set (attr_variants k). x \<notin> set list_attrs"
    and "\<not> meta_truthy meta"
  shows "Get_loop env (PList xs) meta [Name k] dflt = Returns dflt"
  using Get_loop_list_name_last[OF class_like_list_None[OF assms(2)] assms(3)] assms(1)
  by simp


theorem Get_list_mismatch_witness:
  "\<forall>env. Get env (PList [PInt 1, PDict [(DStr ''k'', PInt 2)]]) [Name ''k''] (PStr ''d'') =
           Returns (PStr ''d'')
     \<and> Get env (PList []) [Name ''k''] (PStr ''d'') = Returns (PStr ''d'')"
proof
  fix env
  have h2: "\<forall>x\<in>set (attr_variants ''k''). x \<notin> set list_attrs" by code_simp
  have h3: "\<not> meta_truthy None" by (simp add: meta_truthy_def)
  have a: "\<not> list_of_dicts (PList [PInt 1, PDict [(DStr ''k'', PInt 2)]])" by simp
  have b: "\<not> list_of_dicts (PList [])" by simp
  show "Get env (PList [PInt 1, PDict [(DStr ''k'', PInt 2)]]) [Name ''k''] (PStr ''d'') =
           Returns (PStr ''d'')
     \<and> Get env (PList []) [Name ''k''] (PStr ''d'') = Returns (PStr ''d'')"
    using Get_list_mismatch[OF a h2 h3, of env "PStr ''d''"]
      Get_list_mismatch[OF b h2 h3, of env "PStr ''d''"]
    by (simp add: Get_def)
qed

text \<open>
  On a list without dictionaries too, a key that names a method of the list returns
  that method, not the default.
\<close>

theorem Get_list_mismatch_method:
  "\<forall>env. Get env (PList [PInt 1]) [Name ''append''] PNone =
           ReturnsBuiltin (PList [PInt 1]) ''append''
     \<and> Get env (PList [PInt 1]) [Name ''append''] PNone \<noteq> Returns PNone
     \<and> Get env (PList []) [Name ''append''] PNone \<noteq> Returns PNone"
proof
  fix env
  have "Get env (PList [PInt 1]) [Name ''append''] PNone =
           ReturnsBuiltin (PList [PInt 1]) ''append''"
    by code_simp
  moreover have "Get env (PList []) [Name ''append''] PNone =
           ReturnsBuiltin (PList []) ''append''"
    by code_simp
  ultimately show "Get env (PList [PInt 1]) [Name ''append''] PNone =
           ReturnsBuiltin (PList [PInt 1]) ''append''
     \<and> Get env (PList [PInt 1]) [Name ''append''] PNone \<noteq> Returns PNone
     \<and> Get env (PList []) [Name ''append''] PNone \<noteq> Returns PNone"
    by simp
qed

subsection \<open>The matching engine\<close>

text \<open>
  C4. \<^verbatim>\<open>GetMatchingIndex\<close> returns the key itself when the predicate accepts it;
  otherwise, for a string key, its camel-case form when the predicate accepts that,
  otherwise its snake-case form when the predicate accepts that, otherwise nothing; a key
  that is not a string is never converted. So \<^verbatim>\<open>Get\<close> finds \<^verbatim>\<open>fooBar\<close> under the key
  \<^verbatim>\<open>foo_bar\<close> and \<^verbatim>\<open>foo_bar\<close> under the key \<^verbatim>\<open>fooBar\<close>.
\<close>

theorem GetMatchingIndex_order:
  "(func index \<longrightarrow> GetMatchingIndex index func = Some index)
   \<and> (\<not> func (Name s) \<and> func (Name (ConvertToCamelCase s)) \<longrightarrow>
        GetMatchingIndex (Name s) func = Some (Name (ConvertToCamelCase s)))
   \<and> (\<not> func (Name s) \<and> \<not> func (Name (ConvertToCamelCase s))
        \<and> func (Name (ConvertToSnakeCase s)) \<longrightarrow>
        GetMatchingIndex (Name s) func = Some (Name (ConvertToSnakeCase s)))
   \<and> (\<not> func (Name s) \<and> \<not> func (Name (ConvertToCamelCase s))
        \<and> \<not> func (Name (ConvertToSnakeCase s)) \<longrightarrow>
        GetMatchingIndex (Name s) func = None)
   \<and> (\<not> func (Index i) \<longrightarrow> GetMatchingIndex (Index i) func = None)
   \<and> (\<not> func Slice \<longrightarrow> GetMatchingIndex Slice func = None)
   \<and> Get env (PDict [(DStr ''fooBar'', PInt 5)]) [Name ''foo_bar''] PNone = Returns (PInt 5)
   \<and> Get env (PDict [(DStr ''foo_bar'', PInt 5)]) [Name ''fooBar''] PNone = Returns (PInt 5)"
proof -
  have "Get env (PDict [(DStr ''fooBar'', PInt 5)]) [Name ''foo_bar''] PNone = Returns (PInt 5)"
    by code_simp
  moreover
  have "Get env (PDict [(DStr ''foo_bar'', PInt 5)]) [Name ''fooBar''] PNone = Returns (PInt 5)"
    by code_simp
  ultimately show ?thesis by (simp add: GetMatchingIndex_def)
qed

theorem GetMatchingIndex_order_witness:
  "GetMatchingIndex (Name ''fooBar'') (\<lambda>x. x = Name ''fooBar'') = Some (Name ''fooBar'')
   \<and> GetMatchingIndex (Name ''foo_bar'') (\<lambda>x. x = Name ''fooBar'') = Some (Name ''fooBar'')
   \<and> GetMatchingIndex (Name ''fooBar'') (\<lambda>x. x = Name ''foo_bar'') = Some (Name ''foo_bar'')
   \<and> GetMatchingIndex (Name ''fooBar'') (\<lambda>x. x = Name ''other'') = None
   \<and> GetMatchingIndex (Index 3) (\<lambda>x. x = Name ''3'') = None
   \<and> GetMatchingIndex Slice (\<lambda>x. x = Name ''None'') = None"
proof -
  have c: "ConvertToCamelCase ''foo_bar'' = ''fooBar''" "ConvertToSnakeCase ''fooBar'' = ''foo_bar''"
    "ConvertToCamelCase ''fooBar'' = ''fooBar''"
    by code_simp+
  show ?thesis
    using GetMatchingIndex_order[of "\<lambda>x. x = Name ''fooBar''" "Name ''fooBar''" "''foo_bar''" 3]
      GetMatchingIndex_order[of "\<lambda>x. x = Name ''foo_bar''" "Name ''foo_bar''" "''fooBar''" 3]
      GetMatchingIndex_order[of "\<lambda>x. x = Name ''other''" "Name ''other''" "''fooBar''" 3]
      GetMatchingIndex_order[of "\<lambda>x. x = Name ''3''" "Name ''3''" "''fooBar''" 3]
      GetMatchingIndex_order[of "\<lambda>x. x = Name ''None''" "Name ''None''" "''fooBar''" 3]
      c
    by simp
qed


section \<open>Properties of the classifier\<close>

lemma no_next: "''next'' \<notin> set (builtin_attrs r)"
  by (cases r) (simp_all add: common_attrs_def int_attrs_def str_attrs_def list_attrs_def tuple_attrs_def set_attrs_def dict_attrs_def object_attrs_def)

lemma no_iter_obj: "''__iter__'' \<notin> set object_attrs"
  by (simp add: object_attrs_def common_attrs_def)


text \<open>
  C9 (as amended). \<^verbatim>\<open>IsListLike(r)\<close> is true exactly when \<open>r\<close> is a list, or exposes both
  \<^verbatim>\<open>__iter__\<close> and \<^verbatim>\<open>next\<close>, which among the values of the model only an object with
  both fields does. It is false for every tuple, set, dictionary, string and scalar.
\<close>

theorem IsListLike_iff:
  "IsListLike r =
     ((\<exists>xs. r = PList xs) \<or>
      (\<exists>flds v w. r = PObj flds \<and> map_of flds ''__iter__'' = Some v \<and> map_of flds ''next'' = Some w))"
proof (cases r)
  case (PObj flds)
  then show ?thesis
    using no_next[of r] no_iter_obj
    by (auto simp: IsListLike_def py_hasattr_def py_getattr_def split: option.splits)
qed (insert no_next[of r], auto simp: IsListLike_def py_hasattr_def py_getattr_def)


text \<open>A tuple is a sequence, and is not list-like.\<close>

theorem IsListLike_tuple:
  "IsListLike (PTuple [PInt 1, PInt 2]) = False"
  by code_simp


section \<open>Properties of the global restriction evaluator\<close>

declare same_public.simps(1) [simp del]

lemmas same_public_induct = same_public_same_public_items_same_public_values_same_public_fields.induct

lemma list_ex_keys: "list_ex (\<lambda>(k, v). f k) kvs = list_ex f (map fst kvs)"
  by (induction kvs) auto

lemma map_of_keys: "(map_of flds x \<noteq> None) = (x \<in> set (map fst flds))"
  by (induction flds) auto

lemma restriction_same_public:
  fixes pattern :: "string \<Rightarrow> bool"
  shows "same_public v w \<Longrightarrow>
      EvaluateGlobalRestriction pattern v = EvaluateGlobalRestriction pattern w"
    and "same_public_items kvs kvs' \<Longrightarrow>
      restriction_items pattern kvs = restriction_items pattern kvs' \<and> map fst kvs = map fst kvs'"
    and "same_public_values xs ys \<Longrightarrow>
      restriction_values pattern xs = restriction_values pattern ys"
    and "same_public_fields flds flds' \<Longrightarrow>
      restriction_fields pattern flds = restriction_fields pattern flds' \<and>
      map fst flds = map fst flds'"
proof (induction v w and kvs kvs' and xs ys and flds flds' rule: same_public_induct)
  case (1 v w)
  show ?case
  proof (cases v)
    case (PDict kvs)
    show ?thesis
    proof (cases w)
      case w: (PDict kvs')
      from "1.prems" PDict w have "same_public_items kvs kvs'" by (simp add: same_public.simps(1))
      with "1.IH" PDict w have items: "restriction_items pattern kvs =
          restriction_items pattern kvs'" and keys: "map fst kvs = map fst kvs'"
        by auto
      have "list_ex (\<lambda>(k, v). restriction_on_key pattern k) kvs =
          list_ex (\<lambda>(k, v). restriction_on_key pattern k) kvs'"
        using keys list_ex_keys[of "restriction_on_key pattern" kvs]
          list_ex_keys[of "restriction_on_key pattern" kvs'] by simp
      then show ?thesis using PDict w items by (simp split: scan.splits)
    qed (use 1 PDict in \<open>auto simp: same_public.simps(1)\<close>)
  next
    case (PList xs)
    then show ?thesis using 1 by (cases w) (auto simp: same_public.simps(1))
  next
    case (PTuple xs)
    then show ?thesis using 1 by (cases w) (auto simp: same_public.simps(1))
  next
    case (PSet xs)
    then show ?thesis using 1 by (cases w) (auto simp: same_public.simps(1))
  next
    case (PObj flds)
    then show ?thesis using 1 by (cases w) (auto simp: map_of_keys same_public.simps(1) simp del: not_None_eq)
  qed (use 1 in \<open>auto simp: same_public.simps(1) split: pyval.splits\<close>)
next
  case (2 kvs')
  then show ?case by simp
next
  case (3 k v kvs kvs')
  from "3.prems" obtain v' rest where kvs': "kvs' = (k, v') # rest"
    and head: "hidden_key k \<or> same_public v v'" and tail: "same_public_items kvs rest"
    by (cases kvs') auto
  from "3.IH"(2)[OF kvs' refl tail]
  have rest: "restriction_items pattern kvs = restriction_items pattern rest"
    "map fst kvs = map fst rest"
    by simp_all
  show ?case
  proof (cases "hidden_key k")
    case True
    then show ?thesis using kvs' rest by (auto simp: hidden_key_def split: dkey.splits)
  next
    case False
    with head have "same_public v v'" by simp
    from "3.IH"(1)[OF kvs' refl this]
    have "EvaluateGlobalRestriction pattern v = EvaluateGlobalRestriction pattern v'" by simp
    then show ?thesis using kvs' rest
      by (simp split: dkey.splits sum.splits)
  qed
next
  case (4 ys)
  then show ?case by simp
next
  case (5 x xs ys)
  from "5.prems" obtain y rest where ys: "ys = y # rest"
    and head: "same_public x y" and tail: "same_public_values xs rest"
    by (cases ys) auto
  from "5.IH"(1)[OF ys head]
  have "EvaluateGlobalRestriction pattern x = EvaluateGlobalRestriction pattern y" by simp
  moreover from "5.IH"(2)[OF ys tail]
  have "restriction_values pattern xs = restriction_values pattern rest" by simp
  ultimately show ?case using ys by (simp split: sum.splits)
next
  case (6 flds')
  then show ?case by simp
next
  case (7 k v flds flds')
  from "7.prems" obtain v' rest where flds': "flds' = (k, v') # rest"
    and head: "same_public v v'" and tail: "same_public_fields flds rest"
    by (cases flds') auto
  from "7.IH"(1)[OF flds' refl head]
  have "EvaluateGlobalRestriction pattern v = EvaluateGlobalRestriction pattern v'" by simp
  moreover from "7.IH"(2)[OF flds' refl tail]
  have "restriction_fields pattern flds = restriction_fields pattern rest"
    "map fst flds = map fst rest"
    by simp_all
  ultimately show ?case using flds' by (simp split: sum.splits)
qed


text \<open>
  C7. \<^verbatim>\<open>EvaluateGlobalRestriction\<close> never inspects a value stored under a dictionary key
  that begins with an underscore: on two resources that differ only in such values the
  outcome is the same, for every pattern. A pattern that matches only such a value
  gives \<^verbatim>\<open>False\<close>, while a pattern that matches a value under another key of the same
  resource gives \<^verbatim>\<open>True\<close>.
\<close>

theorem restriction_ignores_underscore_values:
  "(same_public r r' \<longrightarrow>
      EvaluateGlobalRestriction pattern r = EvaluateGlobalRestriction pattern r')
   \<and> EvaluateGlobalRestriction (contains ''foo'')
        (PDict [(DStr ''_internal'', PStr ''secret''), (DStr ''name'', PStr ''deploy-foo'')]) =
      Inr True
   \<and> EvaluateGlobalRestriction (contains ''secret'')
        (PDict [(DStr ''_internal'', PStr ''secret''), (DStr ''name'', PStr ''deploy-foo'')]) =
      Inr False"
proof -
  have "EvaluateGlobalRestriction (contains ''foo'')
        (PDict [(DStr ''_internal'', PStr ''secret''), (DStr ''name'', PStr ''deploy-foo'')]) =
      Inr True"
    by code_simp
  moreover have "EvaluateGlobalRestriction (contains ''secret'')
        (PDict [(DStr ''_internal'', PStr ''secret''), (DStr ''name'', PStr ''deploy-foo'')]) =
      Inr False"
    by code_simp
  ultimately show ?thesis using restriction_same_public(1)[of r r' pattern] by blast
qed

theorem restriction_ignores_underscore_values_witness:
  "EvaluateGlobalRestriction (contains ''secret'')
      (PDict [(DStr ''_internal'', PStr ''secret''), (DStr ''name'', PStr ''deploy-foo'')]) =
    EvaluateGlobalRestriction (contains ''secret'')
      (PDict [(DStr ''_internal'', PInt 0), (DStr ''name'', PStr ''deploy-foo'')])"
proof -
  have "same_public
      (PDict [(DStr ''_internal'', PStr ''secret''), (DStr ''name'', PStr ''deploy-foo'')])
      (PDict [(DStr ''_internal'', PInt 0), (DStr ''name'', PStr ''deploy-foo'')])"
    by code_simp
  then show ?thesis
    using restriction_ignores_underscore_values[of
        "PDict [(DStr ''_internal'', PStr ''secret''), (DStr ''name'', PStr ''deploy-foo'')]"
        "PDict [(DStr ''_internal'', PInt 0), (DStr ''name'', PStr ''deploy-foo'')]"
        "contains ''secret''"]
    by blast
qed


section \<open>Termination of the global restriction evaluator\<close>








text \<open>
  The fuel bounds the model only: every fuel above the recursion limit gives the same
  outcome.
\<close>

lemma restriction_store_fuel:
  "limit < fuel \<Longrightarrow> limit < fuel' \<Longrightarrow>
     EvaluateGlobalRestriction_store fuel limit pattern st a =
       EvaluateGlobalRestriction_store fuel' limit pattern st a"
proof (induction fuel arbitrary: fuel' limit a)
  case 0
  then show ?case by simp
next
  case (Suc f)
  from Suc.prems(2) obtain f' where f': "fuel' = Suc f'" by (cases fuel') auto
  show ?case
  proof (cases limit)
    case 0
    then show ?thesis using f' by simp
  next
    case (Suc r)
    with Suc.prems f' have r: "r < f" "r < f'" by simp_all
    have "EvaluateGlobalRestriction_store f r pattern st =
        EvaluateGlobalRestriction_store f' r pattern st"
      using Suc.IH[OF r] by (rule ext)
    moreover have "restriction_key_store f r pattern = restriction_key_store f' r pattern"
      using r by (auto simp add: restriction_key_store_def)
    ultimately show ?thesis using Suc f' by (cases "st a") simp_all
  qed
qed

text \<open>
  On the dictionary that holds itself under the key \<^verbatim>\<open>self\<close> every call makes a nested
  call on the same dictionary, until the interpreter refuses one: the outcome is the
  \<^verbatim>\<open>RuntimeError\<close>, whatever the recursion limit and the pattern. The function has
  no visited-set and no depth bound of its own.
\<close>

lemma self_referential_0: "self_referential 0 = SDict [(DStr ''self'', 0)]"
  by (simp add: self_referential_def)

lemma restriction_store_cycle:
  "limit < fuel \<Longrightarrow>
     EvaluateGlobalRestriction_store fuel limit pattern self_referential 0 =
       Some (Inl RuntimeError)"
proof (induction fuel arbitrary: limit)
  case 0
  then show ?case by simp
next
  case (Suc fuel)
  show ?case
  proof (cases limit)
    case 0
    then show ?thesis by simp
  next
    case (Suc remaining)
    with Suc.prems have "remaining < fuel" by simp
    then have "EvaluateGlobalRestriction_store fuel remaining pattern self_referential 0 =
        Some (Inl RuntimeError)"
      by (rule Suc.IH)
    then show ?thesis
      using Suc
      by (simp add: self_referential_0 end_of_items_def startswith_underscore_def)
  qed
qed

text \<open>
  On a resource that is a tree and needs no more nested calls than the interpreter
  allows, the evaluator on the store returns what the recursion over the tree returns.
\<close>

lemma list_max_ge: "n \<in> set ns \<Longrightarrow> n \<le> list_max ns"
  unfolding list_max_def by (induction ns) auto

lemma values_scan_tree:
  assumes "list_all2 (\<lambda>x a'. represents st a' x) xs as"
    and "\<And>x a'. x \<in> set xs \<Longrightarrow> represents st a' x \<Longrightarrow>
           eval a' = Some (EvaluateGlobalRestriction pattern x)"
  shows "restriction_values_store eval as = Some (restriction_values pattern xs)"
  using assms
proof (induction xs as rule: list_all2_induct)
  case Nil
  then show ?case by simp
next
  case (Cons x xs a as)
  have "eval a = Some (EvaluateGlobalRestriction pattern x)"
    using Cons.prems[of x a] Cons.hyps(1) by simp
  moreover have "restriction_values_store eval as = Some (restriction_values pattern xs)"
    using Cons.IH Cons.prems by simp
  ultimately show ?case by (simp split: sum.splits)
qed

lemma items_scan_tree:
  assumes "list_all2 (\<lambda>kv ka. fst kv = fst ka \<and> represents st (snd ka) (snd kv)) kvs kas"
    and "\<And>kv a'. kv \<in> set kvs \<Longrightarrow> represents st a' (snd kv) \<Longrightarrow>
           eval a' = Some (EvaluateGlobalRestriction pattern (snd kv))"
  shows "restriction_items_store eval kas = Some (restriction_items pattern kvs)"
  using assms
proof (induction kvs kas rule: list_all2_induct)
  case Nil
  then show ?case by simp
next
  case (Cons kv kvs ka kas)
  obtain k v where kv: "kv = (k, v)" by (cases kv)
  obtain k' a where ka: "ka = (k', a)" by (cases ka)
  from Cons.hyps(1) kv ka have k: "k' = k" and rep: "represents st a v" by simp_all
  have "eval a = Some (EvaluateGlobalRestriction pattern v)"
    using Cons.prems[of kv a] rep kv by simp
  moreover have "restriction_items_store eval kas = Some (restriction_items pattern kvs)"
    using Cons.IH Cons.prems by simp
  ultimately show ?case using kv ka k by (simp split: sum.splits dkey.splits)
qed

lemma fields_scan_tree:
  assumes "list_all2 (\<lambda>kv ka. fst kv = fst ka \<and> represents st (snd ka) (snd kv)) flds fas"
    and "\<And>kv a'. kv \<in> set flds \<Longrightarrow> represents st a' (snd kv) \<Longrightarrow>
           eval a' = Some (EvaluateGlobalRestriction pattern (snd kv))"
  shows "restriction_fields_store eval fas = Some (restriction_fields pattern flds)"
  using assms
proof (induction flds fas rule: list_all2_induct)
  case Nil
  then show ?case by simp
next
  case (Cons kv flds ka fas)
  obtain k v where kv: "kv = (k, v)" by (cases kv)
  obtain k' a where ka: "ka = (k', a)" by (cases ka)
  from Cons.hyps(1) kv ka have k: "k' = k" and rep: "represents st a v" by simp_all
  have "eval a = Some (EvaluateGlobalRestriction pattern v)"
    using Cons.prems[of kv a] rep kv by simp
  moreover have "restriction_fields_store eval fas = Some (restriction_fields pattern flds)"
    using Cons.IH Cons.prems by simp
  ultimately show ?case using kv ka k by (simp split: sum.splits)
qed

lemma keys_scan:
  "0 < fuel \<Longrightarrow> 0 < limit \<Longrightarrow>
     end_of_values (restriction_values_store (restriction_key_store fuel limit pattern) ks) =
       Some (Inr (list_ex (restriction_on_key pattern) ks))"
  by (induction ks) (simp_all add: end_of_values_def restriction_key_store_def)

lemma same_keys:
  "list_all2 (\<lambda>kv ka. fst kv = fst ka \<and> P kv ka) kvs kas \<Longrightarrow> map fst kvs = map fst kas"
  by (induction kvs kas rule: list_all2_induct) auto

lemma restriction_store_on_trees:
  "represents st a v \<Longrightarrow> nesting v \<le> limit \<Longrightarrow> limit < fuel \<Longrightarrow>
     EvaluateGlobalRestriction_store fuel limit pattern st a =
       Some (EvaluateGlobalRestriction pattern v)"
proof (induction v arbitrary: a fuel limit)
  case (PList xs)
  from PList.prems(2,3) obtain f r where fr: "fuel = Suc f" "limit = Suc r" "r < f"
    and r: "list_max (map nesting xs) \<le> r"
    by (cases fuel; cases limit) auto
  from PList.prems(1) obtain as where sa: "st a = SList as"
    and reps: "list_all2 (\<lambda>x a'. represents st a' x) xs as"
    by (auto split: sval.splits)
  have "restriction_values_store (EvaluateGlobalRestriction_store f r pattern st) as =
      Some (restriction_values pattern xs)"
  proof (rule values_scan_tree[OF reps])
    fix x a' assume x: "x \<in> set xs" and rep: "represents st a' x"
    have "nesting x \<le> r" using list_max_ge[of "nesting x" "map nesting xs"] x r by simp
    then show "EvaluateGlobalRestriction_store f r pattern st a' =
        Some (EvaluateGlobalRestriction pattern x)"
      using PList.IH[OF x rep] fr(3) by simp
  qed
  then show ?case using sa fr by (simp add: end_of_values_def split: scan.splits)
next
  case (PTuple xs)
  from PTuple.prems(2,3) obtain f r where fr: "fuel = Suc f" "limit = Suc r" "r < f"
    and r: "list_max (map nesting xs) \<le> r"
    by (cases fuel; cases limit) auto
  from PTuple.prems(1) obtain as where sa: "st a = STuple as"
    and reps: "list_all2 (\<lambda>x a'. represents st a' x) xs as"
    by (auto split: sval.splits)
  have "restriction_values_store (EvaluateGlobalRestriction_store f r pattern st) as =
      Some (restriction_values pattern xs)"
  proof (rule values_scan_tree[OF reps])
    fix x a' assume x: "x \<in> set xs" and rep: "represents st a' x"
    have "nesting x \<le> r" using list_max_ge[of "nesting x" "map nesting xs"] x r by simp
    then show "EvaluateGlobalRestriction_store f r pattern st a' =
        Some (EvaluateGlobalRestriction pattern x)"
      using PTuple.IH[OF x rep] fr(3) by simp
  qed
  then show ?case using sa fr by (simp add: end_of_values_def split: scan.splits)
next
  case (PSet xs)
  from PSet.prems(2,3) obtain f r where fr: "fuel = Suc f" "limit = Suc r" "r < f"
    and r: "list_max (map nesting xs) \<le> r"
    by (cases fuel; cases limit) auto
  from PSet.prems(1) obtain as where sa: "st a = SSet as"
    and reps: "list_all2 (\<lambda>x a'. represents st a' x) xs as"
    by (auto split: sval.splits)
  have "restriction_values_store (EvaluateGlobalRestriction_store f r pattern st) as =
      Some (restriction_values pattern xs)"
  proof (rule values_scan_tree[OF reps])
    fix x a' assume x: "x \<in> set xs" and rep: "represents st a' x"
    have "nesting x \<le> r" using list_max_ge[of "nesting x" "map nesting xs"] x r by simp
    then show "EvaluateGlobalRestriction_store f r pattern st a' =
        Some (EvaluateGlobalRestriction pattern x)"
      using PSet.IH[OF x rep] fr(3) by simp
  qed
  then show ?case using sa fr by (simp add: end_of_values_def split: scan.splits)
next
  case (PDict kvs)
  from PDict.prems(2,3) obtain f r where fr: "fuel = Suc f" "limit = Suc r" "r < f"
    and r: "list_max (1 # map (\<lambda>kv. nesting (snd kv)) kvs) \<le> r"
    by (cases fuel; cases limit) auto
  have r1: "0 < r" using list_max_ge[of 1 "1 # map (\<lambda>kv. nesting (snd kv)) kvs"] r by simp
  from PDict.prems(1) obtain kas where sa: "st a = SDict kas"
    and reps: "list_all2 (\<lambda>kv ka. fst kv = fst ka \<and> represents st (snd ka) (snd kv)) kvs kas"
    by (auto split: sval.splits)
  have items: "restriction_items_store (EvaluateGlobalRestriction_store f r pattern st) kas =
      Some (restriction_items pattern kvs)"
  proof (rule items_scan_tree[OF reps])
    fix kv a' assume kv: "kv \<in> set kvs" and rep: "represents st a' (snd kv)"
    have "nesting (snd kv) \<le> r"
      using list_max_ge[of "nesting (snd kv)" "1 # map (\<lambda>kv. nesting (snd kv)) kvs"] kv r
      by simp
    moreover have "snd kv \<in> Basic_BNFs.snds kv" by (cases kv) simp
    ultimately show "EvaluateGlobalRestriction_store f r pattern st a' =
        Some (EvaluateGlobalRestriction pattern (snd kv))"
      using PDict.IH[OF kv _ rep] fr(3) by simp
  qed
  have "list_ex (restriction_on_key pattern) (map fst kas) =
      list_ex (\<lambda>(k, v). restriction_on_key pattern k) kvs"
    using same_keys[OF reps] list_ex_keys[of "restriction_on_key pattern" kvs] by simp
  then have keys: "end_of_values
      (restriction_values_store (restriction_key_store f r pattern) (map fst kas)) =
      Some (Inr (list_ex (\<lambda>(k, v). restriction_on_key pattern k) kvs))"
    using keys_scan[of f r pattern "map fst kas"] fr(3) r1 by simp
  show ?case using sa fr items keys by (simp add: end_of_items_def split: scan.splits)
next
  case (PObj flds)
  from PObj.prems(2,3) obtain f r where fr: "fuel = Suc f" "limit = Suc r" "r < f"
    and r: "list_max (map (\<lambda>kv. nesting (snd kv)) flds) \<le> r"
    by (cases fuel; cases limit) auto
  from PObj.prems(1) obtain fas where sa: "st a = SObj fas"
    and reps: "list_all2 (\<lambda>kv ka. fst kv = fst ka \<and> represents st (snd ka) (snd kv)) flds fas"
    by (auto split: sval.splits)
  have fields: "restriction_fields_store (EvaluateGlobalRestriction_store f r pattern st) fas =
      Some (restriction_fields pattern flds)"
  proof (rule fields_scan_tree[OF reps])
    fix kv a' assume kv: "kv \<in> set flds" and rep: "represents st a' (snd kv)"
    have "nesting (snd kv) \<le> r"
      using list_max_ge[of "nesting (snd kv)" "map (\<lambda>kv. nesting (snd kv)) flds"] kv r
      by simp
    moreover have "snd kv \<in> Basic_BNFs.snds kv" by (cases kv) simp
    ultimately show "EvaluateGlobalRestriction_store f r pattern st a' =
        Some (EvaluateGlobalRestriction pattern (snd kv))"
      using PObj.IH[OF kv _ rep] fr(3) by simp
  qed
  have "(map_of fas ''iteritems'' \<noteq> None) = (map_of flds ''iteritems'' \<noteq> None)"
    using same_keys[OF reps] map_of_keys[of fas "''iteritems''"]
      map_of_keys[of flds "''iteritems''"]
    by simp
  then show ?case using sa fr fields by (simp add: end_of_fields_def split: scan.splits)
next
  case PNone
  then show ?case by (cases fuel; cases limit) (auto split: sval.splits)
next
  case (PBool b)
  then show ?case by (cases fuel; cases limit) (auto split: sval.splits)
next
  case (PInt i)
  then show ?case by (cases fuel; cases limit) (auto split: sval.splits)
next
  case (PLong i)
  then show ?case by (cases fuel; cases limit) (auto split: sval.splits)
next
  case (PStr s)
  then show ?case by (cases fuel; cases limit) (auto split: sval.splits)
qed


end
